theory Spec2Isabelle
  imports Main "HOL-Library.Multiset" "HOL-Library.Sublist"
begin

section \<open>Errors\<close>

text \<open>
  The exceptions that \<open>MRIReconAugmentor\<close> (meddlr/transforms/builtin/mri.py) can raise
  by itself: a failed \<open>assert\<close>, an attribute access on \<open>None\<close> (\<open>x.ndim\<close>), a
  \<open>permute\<close> or a broadcast that torch refuses, \<open>shape[0]\<close> of a rank-0 tensor, and
  the use of the local \<open>img\<close> before it is bound.
\<close>

datatype error = AssertionError | AttributeError | RuntimeError | IndexError | UnboundLocalError

section \<open>Tensors and the layout adapter\<close>

text \<open>
  A tensor is its shape and its elements, read at a multi-index. Two tensors are
  numerically identical when they have the same shape and the same element at every
  multi-index of that rank.
\<close>

record 'a tensor =
  shape :: "nat list"
  elem :: "nat list \<Rightarrow> 'a"

definition ndim :: "'a tensor \<Rightarrow> nat" where
  "ndim t = length (shape t)"

text \<open>torch wraps a negative dimension once and refuses one out of range.\<close>

definition wrap_dim :: "nat \<Rightarrow> int \<Rightarrow> nat option" where
  "wrap_dim n d =
     (if 0 \<le> d \<and> d < int n then Some (nat d)
      else if - int n \<le> d \<and> d < 0 then Some (nat (d + int n))
      else None)"

fun wrap_dims :: "nat \<Rightarrow> int list \<Rightarrow> nat list option" where
  "wrap_dims n [] = Some []"
| "wrap_dims n (d # ds) =
     (case wrap_dim n d of
        None \<Rightarrow> None
      | Some p \<Rightarrow> (case wrap_dims n ds of None \<Rightarrow> None | Some ps \<Rightarrow> Some (p # ps)))"

text \<open>The position of a dimension in a list of dimensions.\<close>

fun pos :: "nat list \<Rightarrow> nat \<Rightarrow> nat" where
  "pos [] d = 0"
| "pos (x # xs) d = (if x = d then 0 else Suc (pos xs d))"

text \<open>
  \<open>torch.Tensor.permute(dims)\<close>: axis \<open>i\<close> of the result is axis \<open>dims[i]\<close> of the
  argument, so the result at \<open>idx\<close> is the argument at the index whose component
  \<open>dims[i]\<close> is \<open>idx[i]\<close>. It raises unless \<open>dims\<close> is a permutation of the axes.
\<close>

definition permute :: "int list \<Rightarrow> 'a tensor \<Rightarrow> error + 'a tensor" where
  "permute dims t =
     (case wrap_dims (ndim t) dims of
        None \<Rightarrow> Inl IndexError
      | Some ps \<Rightarrow>
          if length ps \<noteq> ndim t \<or> \<not> distinct ps then Inl RuntimeError
          else Inr \<lparr> shape = map (\<lambda>d. shape t ! d) ps,
                     elem = (\<lambda>idx. elem t (map (\<lambda>j. idx ! pos ps j) [0..<ndim t])) \<rparr>)"

text \<open>
  The two tuples of \<open>_permute_data\<close>:
  \<open>(0,) + tuple(range(3, x.ndim)) + (1, 2)\<close> and
  \<open>(0, x.ndim - 2, x.ndim - 1) + tuple(range(1, x.ndim - 2))\<close>.
  The ranges are empty when their upper bound is not above the lower one, which the
  truncated subtraction of \<open>nat\<close> gives as well.
\<close>

definition spatial_last_dims :: "nat \<Rightarrow> int list" where
  "spatial_last_dims n = [0] @ map int [3..<n] @ [1, 2]"

definition channel_last_dims :: "nat \<Rightarrow> int list" where
  "channel_last_dims n = [0, int n - 2, int n - 1] @ map int [1..<n - 2]"

text \<open>One argument of \<open>_permute_data\<close>: \<open>None\<close> has no attribute \<open>ndim\<close>.\<close>

definition permute_one :: "bool \<Rightarrow> 'a tensor option \<Rightarrow> error + 'a tensor" where
  "permute_one spatial_last x =
     (case x of
        None \<Rightarrow> Inl AttributeError
      | Some t \<Rightarrow>
          permute (if spatial_last then spatial_last_dims (ndim t)
                   else channel_last_dims (ndim t)) t)"

text \<open>\<open>_permute_data(*args, spatial_last)\<close>: the arguments in order, the first failure raised.\<close>

fun permute_data :: "bool \<Rightarrow> 'a tensor option list \<Rightarrow> error + 'a tensor list" where
  "permute_data spatial_last [] = Inr []"
| "permute_data spatial_last (x # xs) =
     (case permute_one spatial_last x of
        Inl e \<Rightarrow> Inl e
      | Inr y \<Rightarrow>
          (case permute_data spatial_last xs of
             Inl e \<Rightarrow> Inl e
           | Inr ys \<Rightarrow> Inr (y # ys)))"

section \<open>Transforms, generators and the mutable world\<close>

text \<open>
  What \<open>issubclass\<close> reads of a transform class: whether it subclasses \<open>Transform\<close> and
  whether it subclasses \<open>GeometricMixin\<close>.
\<close>

record kind =
  is_Transform :: bool
  is_Geometric :: bool

text \<open>
  A transform instance: its class, whether it is a \<open>NoOpTransform\<close>, its three
  capability methods, and whether \<open>apply_kspace\<close> declares a \<open>maps\<close> parameter. The
  second argument of \<open>apply_kspace\<close> is \<open>None\<close> when the call passes no maps.
\<close>

record 'a tfm =
  tfm_type :: kind
  is_NoOp :: bool
  apply_image :: "'a tensor \<Rightarrow> 'a tensor"
  apply_maps :: "'a tensor \<Rightarrow> 'a tensor"
  has_maps_param :: bool
  apply_kspace :: "'a tensor \<Rightarrow> 'a tensor option \<Rightarrow> 'a tensor"

text \<open>
  The mutable state shared by the generators and schedulers of one process: the progress
  counter of every scheduler, by address, and the state of the generators (random number
  generators, internal counters).
\<close>

record 'g world =
  counters :: "nat \<Rightarrow> nat"
  gstate :: "'g"

text \<open>
  A \<open>TransformGen\<close>: the transform class it wraps, and \<open>get_transform(data)\<close>, which
  reads the world and leaves a new generator state.
\<close>

record ('a, 'g) gen =
  base_transform :: kind
  get_transform :: "'a tensor \<Rightarrow> 'g world \<Rightarrow> 'a tfm \<times> 'g"

datatype ('a, 'g) entity =
  Transform "'a tfm"
| TransformGen "('a, 'g) gen"

text \<open>
  What \<open>RandomTransformChoice.get_transform()\<close> returns: one transform or generator, or a
  list or tuple of them.
\<close>

datatype ('a, 'g) resolved =
  Single "('a, 'g) entity"
| Multiple "('a, 'g) entity list"

datatype ('a, 'g) member =
  Plain "('a, 'g) entity"
| RandomTransformChoice "'g world \<Rightarrow> ('a, 'g) resolved \<times> 'g"

text \<open>
  An element of \<open>tfms_or_gens\<close>: the object, and the addresses \<open>schedulers()\<close> returns
  when the object is a \<open>SchedulableMixin\<close> (\<open>None\<close> when it is not).
\<close>

record ('a, 'g) entry =
  member :: "('a, 'g) member"
  sched :: "nat list option"

section \<open>Classification\<close>

definition tfm_kind :: "('a, 'g) entity \<Rightarrow> kind" where
  "tfm_kind x = (case x of Transform t \<Rightarrow> tfm_type t | TransformGen g \<Rightarrow> base_transform g)"

text \<open>The loop of \<open>_classify_transforms\<close>, with its two accumulators.\<close>

fun classify_loop ::
  "('a, 'g) entity list \<Rightarrow> ('a, 'g) entity list \<Rightarrow> ('a, 'g) entity list
     \<Rightarrow> error + (('a, 'g) entity list \<times> ('a, 'g) entity list)" where
  "classify_loop [] tfms_equivariant tfms_invariant = Inr (tfms_equivariant, tfms_invariant)"
| "classify_loop (t # ts) tfms_equivariant tfms_invariant =
     (if \<not> is_Transform (tfm_kind t) then Inl AssertionError
      else if is_Geometric (tfm_kind t)
           then classify_loop ts (tfms_equivariant @ [t]) tfms_invariant
           else classify_loop ts tfms_equivariant (tfms_invariant @ [t]))"

definition classify_transforms ::
  "('a, 'g) entity list \<Rightarrow> error + (('a, 'g) entity list \<times> ('a, 'g) entity list)" where
  "classify_transforms transform_gens = classify_loop transform_gens [] []"

section \<open>External collaborators\<close>

text \<open>
  The mask argument of a call: a Python \<open>bool\<close> or a tensor.
\<close>

datatype 'a mask_value = MaskBool bool | MaskTensor "'a tensor"

text \<open>
  The measurement operator, \<open>cplx.get_mask\<close>, the normalizer and the mask generator are
  not part of this file of the repository; the orchestrator is verified for every choice of
  them. \<open>sense_adjoint maps weights kspace\<close> is \<open>SenseModel(maps, weights=weights)(kspace,
  adjoint=True)\<close> and \<open>sense_forward maps img\<close> is \<open>SenseModel(maps)(img)\<close>.
\<close>

record 'a operators =
  sense_adjoint :: "'a tensor option \<Rightarrow> 'a mask_value option \<Rightarrow> 'a tensor \<Rightarrow> 'a tensor"
  sense_forward :: "'a tensor option \<Rightarrow> 'a tensor \<Rightarrow> 'a tensor"
  get_mask :: "'a tensor \<Rightarrow> 'a tensor"

record 'a normalized =
  masked_kspace :: "'a tensor"
  norm_target :: "'a tensor option"
  norm_mean :: "'a tensor option"
  norm_std :: "'a tensor option"

type_synonym 'a normalizer =
  "'a tensor \<Rightarrow> 'a tensor \<Rightarrow> 'a tensor option \<Rightarrow> 'a mask_value option \<Rightarrow> 'a normalized"

type_synonym 'a mask_generator = "'a tensor \<Rightarrow> 'a tensor \<times> 'a tensor"

subsection \<open>Multiplication by the mask\<close>

text \<open>
  torch broadcasting, on the reversed shapes: trailing axes are aligned, an axis of length
  one stretches, and any other mismatch is refused.
\<close>

fun broadcast_rev :: "nat list \<Rightarrow> nat list \<Rightarrow> nat list option" where
  "broadcast_rev [] ys = Some ys"
| "broadcast_rev (x # xs) [] = Some (x # xs)"
| "broadcast_rev (x # xs) (y # ys) =
     (if x = y \<or> y = 1 then map_option ((#) x) (broadcast_rev xs ys)
      else if x = 1 then map_option ((#) y) (broadcast_rev xs ys)
      else None)"

text \<open>The index of an operand that a result index reads.\<close>

definition bc_index :: "nat list \<Rightarrow> nat list \<Rightarrow> nat list" where
  "bc_index shp idx =
     map (\<lambda>(d, i). if d = 1 then 0 else i) (zip shp (drop (length idx - length shp) idx))"

definition tensor_mul :: "'a::times tensor \<Rightarrow> 'a tensor \<Rightarrow> error + 'a tensor" where
  "tensor_mul a b =
     (case broadcast_rev (rev (shape a)) (rev (shape b)) of
        None \<Rightarrow> Inl RuntimeError
      | Some r \<Rightarrow>
          Inr \<lparr> shape = rev r,
                elem = (\<lambda>idx. elem a (bc_index (shape a) idx) * elem b (bc_index (shape b) idx)) \<rparr>)"

text \<open>\<open>mask * kspace\<close>: a Python \<open>bool\<close> multiplies as the scalar one or zero.\<close>

definition mask_times :: "'a::{times,zero,one} mask_value \<Rightarrow> 'a tensor \<Rightarrow> error + 'a tensor" where
  "mask_times m k =
     (case m of
        MaskBool b \<Rightarrow> Inr \<lparr> shape = shape k, elem = (\<lambda>idx. (if b then 1 else 0) * elem k idx) \<rparr>
      | MaskTensor t \<Rightarrow> tensor_mul t k)"

section \<open>Applying transforms\<close>

text \<open>\<open>g.get_transform(x) if isinstance(g, TransformGen) else g\<close>.\<close>

definition realize :: "('a, 'g) entity \<Rightarrow> 'a tensor \<Rightarrow> 'g world \<Rightarrow> 'a tfm \<times> 'g world" where
  "realize g x w =
     (case g of
        Transform t \<Rightarrow> (t, w)
      | TransformGen gn \<Rightarrow> (case get_transform gn x w of (t, s) \<Rightarrow> (t, w\<lparr>gstate := s\<rparr>)))"

text \<open>
  Modelled from the spec: \<open>TransformList(tfms, ignore_no_op=True)\<close> is defined outside this
  file; the spec says of it that no-op transforms are excluded by construction.
\<close>

definition TransformList :: "'a tfm list \<Rightarrow> 'a tfm list" where
  "TransformList tfms = filter (\<lambda>t. \<not> is_NoOp t) tfms"

text \<open>The loop of \<open>_apply_te\<close>; the first argument is \<open>self.aug_sensitivity_maps\<close>.\<close>

fun te_loop ::
  "bool \<Rightarrow> ('a, 'g) entity list \<Rightarrow> 'a tensor \<Rightarrow> 'a tensor option \<Rightarrow> 'a tensor option
     \<Rightarrow> 'a tfm list \<Rightarrow> 'g world
     \<Rightarrow> ('a tensor \<times> 'a tensor option \<times> 'a tensor option \<times> 'a tfm list) \<times> 'g world" where
  "te_loop aug [] img target maps tfms w = ((img, target, maps, tfms), w)"
| "te_loop aug (g # gs) img target maps tfms w =
     (case realize g img w of
        (tfm, w1) \<Rightarrow>
          if is_NoOp tfm then te_loop aug gs img target maps tfms w1
          else te_loop aug gs
                 (apply_image tfm img)
                 (case target of None \<Rightarrow> None | Some t \<Rightarrow> Some (apply_image tfm t))
                 (case maps of
                    None \<Rightarrow> None
                  | Some m \<Rightarrow> if aug then Some (apply_maps tfm m) else Some m)
                 (tfms @ [tfm]) w1)"

definition apply_te ::
  "bool \<Rightarrow> ('a, 'g) entity list \<Rightarrow> 'a tensor \<Rightarrow> 'a tensor option \<Rightarrow> 'a tensor option
     \<Rightarrow> 'g world
     \<Rightarrow> ('a tensor \<times> 'a tensor option \<times> 'a tensor option \<times> 'a tfm list) \<times> 'g world" where
  "apply_te aug tfms_equivariant img target maps w =
     (case te_loop aug tfms_equivariant img target maps [] w of
        ((i, t, m, tfms), w1) \<Rightarrow> ((i, t, m, TransformList tfms), w1))"

text \<open>
  The call of \<open>apply_kspace\<close> in \<open>_apply_ti\<close>: with \<open>maps=maps\<close> when the signature has a
  \<open>maps\<close> parameter, without it otherwise.
\<close>

definition call_apply_kspace :: "'a tfm \<Rightarrow> 'a tensor \<Rightarrow> 'a tensor \<Rightarrow> 'a tensor" where
  "call_apply_kspace tfm kspace maps =
     (if has_maps_param tfm then apply_kspace tfm kspace (Some maps)
      else apply_kspace tfm kspace None)"

fun ti_loop ::
  "('a, 'g) entity list \<Rightarrow> 'a tensor \<Rightarrow> 'a tensor \<Rightarrow> 'a tfm list \<Rightarrow> 'g world
     \<Rightarrow> ('a tensor \<times> 'a tfm list) \<times> 'g world" where
  "ti_loop [] kspace maps tfms w = ((kspace, tfms), w)"
| "ti_loop (g # gs) kspace maps tfms w =
     (case realize g kspace w of
        (tfm, w1) \<Rightarrow>
          if is_NoOp tfm then ti_loop gs kspace maps tfms w1
          else ti_loop gs (call_apply_kspace tfm kspace maps) maps (tfms @ [tfm]) w1)"

definition apply_ti ::
  "('a, 'g) entity list \<Rightarrow> 'a tensor \<Rightarrow> 'a tensor \<Rightarrow> 'g world
     \<Rightarrow> ('a tensor \<times> 'a tfm list) \<times> 'g world" where
  "apply_ti tfms_invariant kspace maps w =
     (case ti_loop tfms_invariant kspace maps [] w of
        ((k, tfms), w1) \<Rightarrow> ((k, TransformList tfms), w1))"

section \<open>The orchestrator\<close>

record ('a, 'g) augmentor =
  tfms_or_gens :: "('a, 'g) entry list"
  aug_sensitivity_maps :: bool
  apply_mask_after_invariant_tfms :: bool

text \<open>
  The arguments of \<open>__call__\<close>. \<open>override\<close> is the argument
  \<open>apply_mask_after_invariant_tfms\<close> of the call, \<open>None\<close> when it is left out.
\<close>

record 'a call_args =
  kspace :: "'a tensor"
  maps :: "'a tensor option"
  target :: "'a tensor option"
  normalizer :: "'a normalizer option"
  mask :: "'a mask_value option"
  mask_gen :: "'a mask_generator option"
  skip_tfm :: bool
  override :: "bool option"

record 'a out =
  out_kspace :: "'a tensor"
  out_maps :: "'a tensor option"
  out_target :: "'a tensor option"
  out_mean :: "'a tensor option"
  out_std :: "'a tensor option"

subsection \<open>Resolving and classifying\<close>

text \<open>
  The list comprehension \<open>x.get_transform() if isinstance(x, RandomTransformChoice) else x\<close>,
  left to right.
\<close>

fun resolve_choices ::
  "('a, 'g) entry list \<Rightarrow> 'g world \<Rightarrow> ('a, 'g) resolved list \<times> 'g world" where
  "resolve_choices [] w = ([], w)"
| "resolve_choices (x # xs) w =
     (case member x of
        Plain e \<Rightarrow> (case resolve_choices xs w of (rs, w1) \<Rightarrow> (Single e # rs, w1))
      | RandomTransformChoice pick \<Rightarrow>
          (case pick w of
             (r, s) \<Rightarrow>
               (case resolve_choices xs (w\<lparr>gstate := s\<rparr>) of (rs, w1) \<Rightarrow> (r # rs, w1))))"

text \<open>
  The flattening of list-valued resolutions; on a list without any it returns the list, as
  the guard \<open>any(isinstance(x, (list, tuple)) ...)\<close> does.
\<close>

definition flatten :: "('a, 'g) resolved list \<Rightarrow> ('a, 'g) entity list" where
  "flatten rs = concat (map (\<lambda>r. case r of Single e \<Rightarrow> [e] | Multiple es \<Rightarrow> es) rs)"

definition select_transforms ::
  "('a, 'g) augmentor \<Rightarrow> bool \<Rightarrow> 'g world
     \<Rightarrow> (error + (('a, 'g) entity list \<times> ('a, 'g) entity list)) \<times> 'g world" where
  "select_transforms self skip w =
     (if skip then (Inr ([], []), w)
      else case resolve_choices (tfms_or_gens self) w of
             (rs, w1) \<Rightarrow> (classify_transforms (flatten rs), w1))"

subsection \<open>The image-domain stage\<close>

text \<open>
  Lines 144 to 165 of the file: the coil combination, the equivariant transforms between the
  two layout changes, and the decomposition. The local \<open>img\<close> is \<open>None\<close> while unbound.
  The result is the values of \<open>kspace\<close>, \<open>maps\<close>, \<open>target\<close>, \<open>mask\<close>, \<open>img\<close> and
  \<open>tfms_equivariant\<close> afterwards.
\<close>

definition image_stage ::
  "'a operators \<Rightarrow> bool \<Rightarrow> ('a, 'g) entity list \<Rightarrow> 'a call_args \<Rightarrow> 'g world
     \<Rightarrow> (error + ('a tensor \<times> 'a tensor option \<times> 'a tensor option \<times> 'a mask_value option
                   \<times> 'a tensor option \<times> 'a tfm list)) \<times> 'g world" where
  "image_stage ops aug tfms_equivariant a w =
     (let use_img = (normalizer a \<noteq> None \<or> tfms_equivariant \<noteq> []);
          mask1 = (if use_img \<and> mask a = Some (MaskBool True)
                   then Some (MaskTensor (get_mask ops (kspace a))) else mask a);
          img = (if use_img then Some (sense_adjoint ops (maps a) mask1 (kspace a)) else None)
      in if tfms_equivariant = [] then (Inr (kspace a, maps a, target a, mask1, img, []), w)
         else case permute_data True [img, target a, maps a] of
                Inl e \<Rightarrow> (Inl e, w)
              | Inr ps \<Rightarrow>
                 (case apply_te aug tfms_equivariant (ps ! 0) (Some (ps ! 1)) (Some (ps ! 2)) w of
                    ((img2, target2, maps2, te), w1) \<Rightarrow>
                      (case permute_data False [Some img2, target2, maps2] of
                         Inl e \<Rightarrow> (Inl e, w1)
                       | Inr qs \<Rightarrow>
                           (Inr (if te \<noteq> [] then sense_forward ops (Some (qs ! 2)) (qs ! 0)
                                 else kspace a,
                                 Some (qs ! 2), Some (qs ! 1), mask1, Some (qs ! 0), te), w1))))"

subsection \<open>Undersampling and normalization\<close>

text \<open>
  Lines 167 to 180: the result is the values of \<open>kspace\<close>, \<open>target\<close>, \<open>mask\<close>, \<open>mean\<close>
  and \<open>std\<close> afterwards.
\<close>

definition mask_norm_stage ::
  "'a operators \<Rightarrow> 'a mask_generator option \<Rightarrow> 'a normalizer option
     \<Rightarrow> 'a tensor \<Rightarrow> 'a tensor option \<Rightarrow> 'a tensor option \<Rightarrow> 'a mask_value option
     \<Rightarrow> 'a tensor option
     \<Rightarrow> error + ('a tensor \<times> 'a tensor option \<times> 'a mask_value option
                  \<times> 'a tensor option \<times> 'a tensor option)" where
  "mask_norm_stage ops mg nz k mp tg mk img =
     (case (case mg of
              None \<Rightarrow> (k, mk, img)
            | Some g \<Rightarrow>
                (case g k of
                   (k1, m1) \<Rightarrow>
                     (k1, Some (MaskTensor m1),
                      Some (sense_adjoint ops mp (Some (MaskTensor m1)) k1)))) of
        (k1, mk1, img1) \<Rightarrow>
          (case nz of
             None \<Rightarrow> Inr (k1, tg, mk1, None, None)
           | Some n \<Rightarrow>
               (case img1 of
                  None \<Rightarrow> Inl UnboundLocalError
                | Some i \<Rightarrow>
                    Inr (masked_kspace (n k1 i tg mk1), norm_target (n k1 i tg mk1), mk1,
                         norm_mean (n k1 i tg mk1), norm_std (n k1 i tg mk1)))))"

subsection \<open>The invariant stage\<close>

text \<open>
  Lines 185 to 194: the result is the values of \<open>kspace\<close> and \<open>tfms_invariant\<close>
  afterwards. The first argument is the flag \<open>apply_mask_after_invariant_tfms\<close> in force.
\<close>

definition invariant_stage ::
  "bool \<Rightarrow> ('a, 'g) entity list \<Rightarrow> 'a::{times,zero,one} tensor \<Rightarrow> 'a tensor option
     \<Rightarrow> 'a mask_value option \<Rightarrow> 'g world
     \<Rightarrow> (error + ('a tensor \<times> 'a tfm list)) \<times> 'g world" where
  "invariant_stage remask tfms_invariant k mp mk w =
     (if tfms_invariant = [] then (Inr (k, []), w)
      else if remask \<and> mk = None then (Inl AssertionError, w)
      else case permute_one True (Some k) of
             Inl e \<Rightarrow> (Inl e, w)
           | Inr k1 \<Rightarrow>
              (case permute_one True mp of
                 Inl e \<Rightarrow> (Inl e, w)
               | Inr m1 \<Rightarrow>
                  (case apply_ti tfms_invariant k1 m1 w of
                     ((k2, ti), w1) \<Rightarrow>
                       (case permute_one False (Some k2) of
                          Inl e \<Rightarrow> (Inl e, w1)
                        | Inr k3 \<Rightarrow>
                            if remask
                            then (case mk of
                                    None \<Rightarrow> (Inl AssertionError, w1)
                                  | Some m \<Rightarrow>
                                      (case mask_times m k3 of
                                         Inl e \<Rightarrow> (Inl e, w1)
                                       | Inr k4 \<Rightarrow> (Inr (k4, ti), w1)))
                            else (Inr (k3, ti), w1)))))"

subsection \<open>Schedulers\<close>

text \<open>\<open>schedulers()\<close>: the schedulers of every schedulable element, concatenated.\<close>

definition schedulers :: "('a, 'g) augmentor \<Rightarrow> nat list" where
  "schedulers self =
     concat (map (\<lambda>tfm. case sched tfm of None \<Rightarrow> [] | Some ss \<Rightarrow> ss) (tfms_or_gens self))"

text \<open>
  Modelled from the spec: \<open>TFScheduler.step(n)\<close> is defined outside this file; the spec says
  that it advances the scheduler's progress counter by \<open>n\<close>.
\<close>

definition step :: "nat \<Rightarrow> nat \<Rightarrow> 'g world \<Rightarrow> 'g world" where
  "step s n w = w\<lparr>counters := (counters w)(s := counters w s + n)\<rparr>"

text \<open>\<open>for s in self.schedulers(): s.step(kspace.shape[0])\<close>.\<close>

fun step_loop :: "nat list \<Rightarrow> 'a tensor \<Rightarrow> 'g world \<Rightarrow> (error + unit) \<times> 'g world" where
  "step_loop [] k w = (Inr (), w)"
| "step_loop (s # ss) k w =
     (case shape k of
        [] \<Rightarrow> (Inl IndexError, w)
      | b # bs \<Rightarrow> step_loop ss k (step s b w))"

subsection \<open>The call\<close>

text \<open>
  Lines 121 and 122: the argument of the call overrides the value given to the constructor.
\<close>

definition remask_requested :: "('a, 'g) augmentor \<Rightarrow> 'a call_args \<Rightarrow> bool" where
  "remask_requested self a =
     (case override a of None \<Rightarrow> apply_mask_after_invariant_tfms self | Some b \<Rightarrow> b)"

definition call ::
  "'a::{times,zero,one} operators \<Rightarrow> ('a, 'g) augmentor \<Rightarrow> 'a call_args \<Rightarrow> 'g world
     \<Rightarrow> (error + ('a out \<times> 'a tfm list \<times> 'a tfm list)) \<times> 'g world" where
  "call ops self a w =
     (case select_transforms self (skip_tfm a) w of
        (Inl e, w1) \<Rightarrow> (Inl e, w1)
      | (Inr (tfms_equivariant, tfms_invariant), w1) \<Rightarrow>
         (case image_stage ops (aug_sensitivity_maps self) tfms_equivariant a w1 of
            (Inl e, w2) \<Rightarrow> (Inl e, w2)
          | (Inr (k1, mp1, tg1, mk1, img1, te), w2) \<Rightarrow>
             (case mask_norm_stage ops (mask_gen a) (normalizer a) k1 mp1 tg1 mk1 img1 of
                Inl e \<Rightarrow> (Inl e, w2)
              | Inr (k2, tg2, mk2, mean, std) \<Rightarrow>
                 (case invariant_stage (remask_requested self a) tfms_invariant k2 mp1 mk2 w2 of
                    (Inl e, w3) \<Rightarrow> (Inl e, w3)
                  | (Inr (k3, ti), w3) \<Rightarrow>
                     (case step_loop (schedulers self) k3 w3 of
                        (Inl e, w4) \<Rightarrow> (Inl e, w4)
                      | (Inr u, w4) \<Rightarrow>
                          (Inr (\<lparr> out_kspace = k3, out_maps = mp1, out_target = tg2,
                                  out_mean = mean, out_std = std \<rparr>, te, ti), w4))))))"

subsection \<open>Construction and seeding\<close>

text \<open>
  \<open>seed_tfm_gens\<close> (meddlr/transforms/build.py) and the \<open>to(device)\<close> of the owned
  components are not part of this file; both are parameters. \<open>__init__\<close> moves the
  components when a device is given, and calls \<open>seed_tfm_gens\<close> under the test
  \<open>seed is None\<close>.
\<close>

definition init ::
  "(('a, 'g) entry list \<Rightarrow> int option \<Rightarrow> 'g world \<Rightarrow> 'g world)
     \<Rightarrow> (('a, 'g) entry list \<Rightarrow> 'd \<Rightarrow> 'g world \<Rightarrow> 'g world)
     \<Rightarrow> ('a, 'g) entry list \<Rightarrow> bool \<Rightarrow> int option \<Rightarrow> 'd option \<Rightarrow> bool \<Rightarrow> 'g world
     \<Rightarrow> ('a, 'g) augmentor \<times> 'g world" where
  "init seed_tfm_gens to_device tfms aug seed device remask w =
     (let w1 = (case device of None \<Rightarrow> w | Some d \<Rightarrow> to_device tfms d w);
          w2 = (if seed = None then seed_tfm_gens tfms seed w1 else w1)
      in (\<lparr> tfms_or_gens = tfms, aug_sensitivity_maps = aug,
             apply_mask_after_invariant_tfms = remask \<rparr>, w2))"

text \<open>\<open>seed(value)\<close>.\<close>

definition seed ::
  "(('a, 'g) entry list \<Rightarrow> int option \<Rightarrow> 'g world \<Rightarrow> 'g world)
     \<Rightarrow> ('a, 'g) augmentor \<Rightarrow> int \<Rightarrow> 'g world \<Rightarrow> 'g world" where
  "seed seed_tfm_gens self v w = seed_tfm_gens (tfms_or_gens self) (Some v) w"

section \<open>The mask in force\<close>

text \<open>
  The value of the local \<open>mask\<close> when line 185 is reached: the argument, or the mask
  derived from the measurement data (line 150), or the one the mask generator returned
  (line 168). It is \<open>None\<close> when an earlier stage has raised.
\<close>

definition mask_in_force ::
  "'a operators \<Rightarrow> ('a, 'g) augmentor \<Rightarrow> 'a call_args \<Rightarrow> 'g world \<Rightarrow> 'a mask_value option" where
  "mask_in_force ops self a w =
     (case select_transforms self (skip_tfm a) w of
        (Inl e, w1) \<Rightarrow> None
      | (Inr (tfms_equivariant, tfms_invariant), w1) \<Rightarrow>
         (case image_stage ops (aug_sensitivity_maps self) tfms_equivariant a w1 of
            (Inl e, w2) \<Rightarrow> None
          | (Inr (k1, mp1, tg1, mk1, img1, te), w2) \<Rightarrow>
             (case mask_norm_stage ops (mask_gen a) (normalizer a) k1 mp1 tg1 mk1 img1 of
                Inl e \<Rightarrow> None
              | Inr (k2, tg2, mk2, mean, std) \<Rightarrow> mk2)))"

section \<open>A carrier with infinity and NaN\<close>

text \<open>
  The special values of floating-point arithmetic, with the finite values taken as integers:
  NaN absorbs, and zero times infinity is NaN. A \<open>bool\<close> mask multiplies as one or zero
  of this type.
\<close>

datatype ieee = Finite int | Infinity | NaN

instantiation ieee :: "{times,zero,one}"
begin

definition zero_ieee :: ieee where
  "zero_ieee = Finite 0"

definition one_ieee :: ieee where
  "one_ieee = Finite 1"

fun times_ieee :: "ieee \<Rightarrow> ieee \<Rightarrow> ieee" where
  "times_ieee NaN y = NaN"
| "times_ieee (Finite a) NaN = NaN"
| "times_ieee Infinity NaN = NaN"
| "times_ieee (Finite a) (Finite b) = Finite (a * b)"
| "times_ieee (Finite a) Infinity = (if a = 0 then NaN else Infinity)"
| "times_ieee Infinity (Finite b) = (if b = 0 then NaN else Infinity)"
| "times_ieee Infinity Infinity = Infinity"

instance ..

end

section \<open>Auxiliary definitions\<close>

text \<open>The two tuples of the layout adapter as lists of axes, for a rank of at least three.\<close>

definition spatial_last_perm :: "nat \<Rightarrow> nat list" where
  "spatial_last_perm n = [0] @ [3..<n] @ [1, 2]"

definition channel_last_perm :: "nat \<Rightarrow> nat list" where
  "channel_last_perm n = [0, n - 2, n - 1] @ [1..<n - 2]"

text \<open>The length of the first axis, \<open>shape[0]\<close>; zero stands for a tensor without axes.\<close>

definition batch :: "'a tensor \<Rightarrow> nat" where
  "batch t = (case shape t of [] \<Rightarrow> 0 | b # bs \<Rightarrow> b)"

section \<open>A concrete pipeline\<close>

text \<open>
  A tensor of shape \<open>[2, 3, 4, 5]\<close>, operators that return their data unchanged, a geometric
  transform that doubles the maps, and a physics transform that overwrites the measurement
  data with the maps it is given.
\<close>

definition ex_tensor :: "int tensor" where
  "ex_tensor = \<lparr> shape = [2, 3, 4, 5], elem = (\<lambda>idx. int (idx ! 1) + 10 * int (idx ! 3)) \<rparr>"

definition ex_world :: "nat world" where
  "ex_world = \<lparr> counters = (\<lambda>s. 0), gstate = 0 \<rparr>"

definition ex_ops :: "int operators" where
  "ex_ops = \<lparr> sense_adjoint = (\<lambda>mp wt k. k), sense_forward = (\<lambda>mp i. i), get_mask = (\<lambda>k. k) \<rparr>"

definition ex_geometric :: "int tfm" where
  "ex_geometric =
     \<lparr> tfm_type = \<lparr> is_Transform = True, is_Geometric = True \<rparr>, is_NoOp = False,
       apply_image = (\<lambda>t. t), apply_maps = (\<lambda>t. t\<lparr> elem := (\<lambda>idx. 2 * elem t idx) \<rparr>),
       has_maps_param = False, apply_kspace = (\<lambda>k mp. k) \<rparr>"

definition ex_physics :: "int tfm" where
  "ex_physics =
     \<lparr> tfm_type = \<lparr> is_Transform = True, is_Geometric = False \<rparr>, is_NoOp = False,
       apply_image = (\<lambda>t. t), apply_maps = (\<lambda>t. t),
       has_maps_param = True,
       apply_kspace = (\<lambda>k mp. case mp of None \<Rightarrow> k | Some m \<Rightarrow> k\<lparr> elem := elem m \<rparr>) \<rparr>"

text \<open>A physics transform without a \<open>maps\<close> parameter: it adds one to every entry.\<close>

definition ex_noise :: "int tfm" where
  "ex_noise =
     \<lparr> tfm_type = \<lparr> is_Transform = True, is_Geometric = False \<rparr>, is_NoOp = False,
       apply_image = (\<lambda>t. t), apply_maps = (\<lambda>t. t),
       has_maps_param = False,
       apply_kspace = (\<lambda>k mp. k\<lparr> elem := (\<lambda>idx. elem k idx + 1) \<rparr>) \<rparr>"

text \<open>An object whose class is not below \<open>Transform\<close>.\<close>

definition ex_foreign :: "int tfm" where
  "ex_foreign = ex_noise\<lparr> tfm_type := \<lparr> is_Transform = False, is_Geometric = False \<rparr> \<rparr>"

text \<open>
  A generator of physics transforms: the transform scales the measurement data by the
  state of the random number generator, which then advances.
\<close>

definition ex_scale :: "int \<Rightarrow> int tfm" where
  "ex_scale c = ex_noise\<lparr> apply_kspace := (\<lambda>k mp. k\<lparr> elem := (\<lambda>idx. c * elem k idx) \<rparr>) \<rparr>"

definition ex_gen :: "(int, nat) gen" where
  "ex_gen =
     \<lparr> base_transform = \<lparr> is_Transform = True, is_Geometric = False \<rparr>,
       get_transform = (\<lambda>x w. (ex_scale (int (gstate w)), Suc (gstate w))) \<rparr>"

text \<open>
  Modelled from the spec: \<open>seed_tfm_gens\<close> is defined outside this file; the spec says that
  seeding deterministically reseeds the random number generator of every generator. Here
  the state after seeding with a value is that value; without a value nothing is reseeded.
\<close>

definition ex_seed_tfm_gens ::
  "(int, nat) entry list \<Rightarrow> int option \<Rightarrow> nat world \<Rightarrow> nat world" where
  "ex_seed_tfm_gens tfms s w = (case s of None \<Rightarrow> w | Some v \<Rightarrow> w\<lparr> gstate := nat v \<rparr>)"

text \<open>A mask that samples the first row only.\<close>

definition ex_mask :: "int tensor" where
  "ex_mask = \<lparr> shape = [2, 3, 4, 5], elem = (\<lambda>idx. if idx ! 1 = 0 then 1 else 0) \<rparr>"

definition ex_args :: "int call_args" where
  "ex_args = \<lparr> kspace = ex_tensor, maps = Some ex_tensor, target = Some ex_tensor,
               normalizer = None, mask = None, mask_gen = None, skip_tfm = False,
               override = None \<rparr>"

definition ex_shared :: "(int, nat) augmentor" where
  "ex_shared =
     \<lparr> tfms_or_gens = [\<lparr> member = Plain (Transform ex_physics), sched = Some [0] \<rparr>,
                       \<lparr> member = Plain (Transform ex_physics), sched = Some [0] \<rparr>],
       aug_sensitivity_maps = True, apply_mask_after_invariant_tfms = False \<rparr>"

definition ex_pipeline :: "int tfm list \<Rightarrow> bool \<Rightarrow> (int, nat) augmentor" where
  "ex_pipeline tfms aug =
     \<lparr> tfms_or_gens = map (\<lambda>t. \<lparr> member = Plain (Transform t), sched = None \<rparr>) tfms,
       aug_sensitivity_maps = aug, apply_mask_after_invariant_tfms = False \<rparr>"

definition ex_random :: "(int, nat) entry list" where
  "ex_random = [\<lparr> member = Plain (TransformGen ex_gen), sched = None \<rparr>]"

text \<open>
  An undersampled call: the mask comes from a mask generator, and re-masking after the
  invariant transforms is asked for.
\<close>

definition ex_undersampled :: "int call_args" where
  "ex_undersampled = ex_args\<lparr> mask_gen := Some (\<lambda>k. (k, ex_mask)), override := Some True \<rparr>"

text \<open>
  Measurement data of ones, the mask of the first row, and a physics transform that writes
  NaN into the second sample of the batch.
\<close>

definition fp_tensor :: "ieee tensor" where
  "fp_tensor = \<lparr> shape = [2, 3, 4, 5], elem = (\<lambda>idx. Finite 1) \<rparr>"

definition fp_mask :: "ieee tensor" where
  "fp_mask = \<lparr> shape = [2, 3, 4, 5], elem = (\<lambda>idx. if idx ! 1 = 0 then 1 else 0) \<rparr>"

definition fp_ops :: "ieee operators" where
  "fp_ops = \<lparr> sense_adjoint = (\<lambda>mp wt k. k), sense_forward = (\<lambda>mp i. i), get_mask = (\<lambda>k. k) \<rparr>"

definition fp_corrupt :: "ieee tfm" where
  "fp_corrupt =
     \<lparr> tfm_type = \<lparr> is_Transform = True, is_Geometric = False \<rparr>, is_NoOp = False,
       apply_image = (\<lambda>t. t), apply_maps = (\<lambda>t. t),
       has_maps_param = False,
       apply_kspace = (\<lambda>k mp. k\<lparr> elem := (\<lambda>idx. if idx ! 0 = 1 then NaN else elem k idx) \<rparr>) \<rparr>"

definition fp_self :: "(ieee, nat) augmentor" where
  "fp_self =
     \<lparr> tfms_or_gens = [\<lparr> member = Plain (Transform fp_corrupt), sched = None \<rparr>],
       aug_sensitivity_maps = True, apply_mask_after_invariant_tfms = True \<rparr>"

definition fp_args :: "ieee call_args" where
  "fp_args = \<lparr> kspace = fp_tensor, maps = Some fp_tensor, target = Some fp_tensor,
               normalizer = None, mask = Some (MaskTensor fp_mask), mask_gen = None,
               skip_tfm = False, override = None \<rparr>"

section \<open>Lemmas\<close>

lemma classify_loop_filter:
  "classify_loop ts es vs =
     (if list_all (\<lambda>t. is_Transform (tfm_kind t)) ts
      then Inr (es @ filter (\<lambda>t. is_Geometric (tfm_kind t)) ts,
                vs @ filter (\<lambda>t. \<not> is_Geometric (tfm_kind t)) ts)
      else Inl AssertionError)"
  by (induction ts arbitrary: es vs) auto

lemma pos_nth: "distinct ps \<Longrightarrow> k < length ps \<Longrightarrow> pos ps (ps ! k) = k"
proof (induction ps arbitrary: k)
  case Nil
  then show ?case by simp
next
  case (Cons p ps)
  show ?case
  proof (cases k)
    case 0
    then show ?thesis by simp
  next
    case (Suc m)
    with Cons.prems have "m < length ps" and "distinct ps" and "ps ! m \<noteq> p"
      by auto
    with Cons.IH [of m] Suc show ?thesis by auto
  qed
qed

lemma wrap_dims_nat: "\<forall>p \<in> set ps. p < n \<Longrightarrow> wrap_dims n (map int ps) = Some ps"
  by (induction ps) (auto simp: wrap_dim_def)


lemma spatial_last_dims_nat: "spatial_last_dims n = map int (spatial_last_perm n)"
  by (simp add: spatial_last_dims_def spatial_last_perm_def)

lemma channel_last_dims_nat: "2 \<le> n \<Longrightarrow> channel_last_dims n = map int (channel_last_perm n)"
  by (simp add: channel_last_dims_def channel_last_perm_def int_ops)

lemma length_spatial_last_perm: "3 \<le> n \<Longrightarrow> length (spatial_last_perm n) = n" by (simp add: spatial_last_perm_def)
lemma length_channel_last_perm: "3 \<le> n \<Longrightarrow> length (channel_last_perm n) = n" by (simp add: channel_last_perm_def)

lemma spatial_after_channel: "3 \<le> n \<Longrightarrow> i < n \<Longrightarrow> channel_last_perm n ! i < n \<and> spatial_last_perm n ! (channel_last_perm n ! i) = i"
  by (auto simp: spatial_last_perm_def channel_last_perm_def nth_append nth_Cons' )

lemma channel_after_spatial: "3 \<le> n \<Longrightarrow> i < n \<Longrightarrow> spatial_last_perm n ! i < n \<and> channel_last_perm n ! (spatial_last_perm n ! i) = i"
  by (auto simp: spatial_last_perm_def channel_last_perm_def nth_append nth_Cons')


lemma permute_nat:
  assumes "length ps = ndim t" "distinct ps" "\<forall>p \<in> set ps. p < ndim t"
  shows "permute (map int ps) t =
           Inr \<lparr> shape = map (\<lambda>d. shape t ! d) ps,
                 elem = (\<lambda>idx. elem t (map (\<lambda>j. idx ! pos ps j) [0..<ndim t])) \<rparr>"
  using assms by (simp add: permute_def wrap_dims_nat)

lemma inverse_distinct:
  assumes "length p = n" and "\<And>i. i < n \<Longrightarrow> q ! (p ! i) = i"
  shows "distinct p"
  unfolding distinct_conv_nth
proof (intro allI impI)
  fix i j
  assume "i < length p" "j < length p" "i \<noteq> j"
  show "p ! i \<noteq> p ! j"
  proof
    assume "p ! i = p ! j"
    then have "q ! (p ! i) = q ! (p ! j)" by simp
    with assms \<open>i < length p\<close> \<open>j < length p\<close> have "i = j" by simp
    with \<open>i \<noteq> j\<close> show False by simp
  qed
qed

lemma round_trip_gen:
  assumes len: "length p = n" "length q = n" "ndim t = n"
    and pq: "\<And>i. i < n \<Longrightarrow> q ! i < n \<and> p ! (q ! i) = i"
    and qp: "\<And>i. i < n \<Longrightarrow> p ! i < n \<and> q ! (p ! i) = i"
  shows "\<exists>t1 t2. permute (map int p) t = Inr t1 \<and> ndim t1 = n
           \<and> permute (map int q) t1 = Inr t2
           \<and> shape t2 = shape t
           \<and> (\<forall>idx. length idx = n \<longrightarrow> elem t2 idx = elem t idx)"
proof -
  have dp: "distinct p" using inverse_distinct [of p n q] len qp by simp
  have dq: "distinct q" using inverse_distinct [of q n p] len pq by simp
  have rp: "\<forall>x \<in> set p. x < n" using len qp by (auto simp: in_set_conv_nth)
  have rq: "\<forall>x \<in> set q. x < n" using len pq by (auto simp: in_set_conv_nth)
  define t1 where "t1 = \<lparr> shape = map (\<lambda>d. shape t ! d) p,
                           elem = (\<lambda>idx. elem t (map (\<lambda>j. idx ! pos p j) [0..<n])) \<rparr>"
  define t2 where "t2 = \<lparr> shape = map (\<lambda>d. shape t1 ! d) q,
                           elem = (\<lambda>idx. elem t1 (map (\<lambda>j. idx ! pos q j) [0..<n])) \<rparr>"
  have e1: "permute (map int p) t = Inr t1"
    using permute_nat [of p t] len dp rp by (simp add: t1_def)
  have n1: "ndim t1 = n" using len by (simp add: t1_def ndim_def)
  have e2: "permute (map int q) t1 = Inr t2"
    using permute_nat [of q t1] len dq rq n1 by (simp add: t2_def)
  have posp: "pos p j = q ! j" if "j < n" for j
  proof -
    have "pos p (p ! (q ! j)) = q ! j" using pos_nth [of p "q ! j"] dp len pq [OF that] by simp
    then show ?thesis using pq [OF that] by simp
  qed
  have posq: "pos q j = p ! j" if "j < n" for j
  proof -
    have "pos q (q ! (p ! j)) = p ! j" using pos_nth [of q "p ! j"] dq len qp [OF that] by simp
    then show ?thesis using qp [OF that] by simp
  qed
  have sh: "shape t2 = shape t"
  proof (rule nth_equalityI)
    show "length (shape t2) = length (shape t)"
      using len by (simp add: t2_def ndim_def)
  next
    fix i assume "i < length (shape t2)"
    then have i: "i < n" using len by (simp add: t2_def)
    have "shape t2 ! i = shape t1 ! (q ! i)" using i len by (simp add: t2_def)
    also have "\<dots> = shape t ! (p ! (q ! i))" using pq [OF i] len by (simp add: t1_def)
    finally show "shape t2 ! i = shape t ! i" using pq [OF i] by simp
  qed
  have el: "elem t2 idx = elem t idx" if l: "length idx = n" for idx
  proof -
    have "map (\<lambda>j. map (\<lambda>j. idx ! pos q j) [0..<n] ! pos p j) [0..<n] = idx"
    proof (rule nth_equalityI)
      show "length (map (\<lambda>j. map (\<lambda>j. idx ! pos q j) [0..<n] ! pos p j) [0..<n]) = length idx"
        using l by simp
    next
      fix i assume "i < length (map (\<lambda>j. map (\<lambda>j. idx ! pos q j) [0..<n] ! pos p j) [0..<n])"
      then have i: "i < n" by simp
      have a: "pos p i = q ! i" using posp [OF i] .
      have b: "q ! i < n" using pq [OF i] by simp
      have c: "pos q (q ! i) = p ! (q ! i)" using posq [OF b] .
      show "map (\<lambda>j. map (\<lambda>j. idx ! pos q j) [0..<n] ! pos p j) [0..<n] ! i = idx ! i"
        using i a b c pq [OF i] by simp
    qed
    then show ?thesis by (simp add: t2_def t1_def)
  qed
  show ?thesis using e1 n1 e2 sh el by blast
qed

lemma permute_one_round_trip:
  assumes "3 \<le> ndim t"
  shows "\<exists>t1 t2. permute_one b (Some t) = Inr t1 \<and> permute_one (\<not> b) (Some t1) = Inr t2
           \<and> shape t2 = shape t
           \<and> (\<forall>idx. length idx = ndim t \<longrightarrow> elem t2 idx = elem t idx)"
proof (cases b)
  case True
  from round_trip_gen [of "spatial_last_perm (ndim t)" "ndim t" "channel_last_perm (ndim t)" t] assms
  obtain t1 t2 where "permute (map int (spatial_last_perm (ndim t))) t = Inr t1" "ndim t1 = ndim t"
    "permute (map int (channel_last_perm (ndim t))) t1 = Inr t2" "shape t2 = shape t"
    "\<forall>idx. length idx = ndim t \<longrightarrow> elem t2 idx = elem t idx"
    using length_spatial_last_perm length_channel_last_perm spatial_after_channel channel_after_spatial by blast
  then show ?thesis using True assms by (auto simp: permute_one_def spatial_last_dims_nat channel_last_dims_nat)
next
  case False
  from round_trip_gen [of "channel_last_perm (ndim t)" "ndim t" "spatial_last_perm (ndim t)" t] assms
  obtain t1 t2 where "permute (map int (channel_last_perm (ndim t))) t = Inr t1" "ndim t1 = ndim t"
    "permute (map int (spatial_last_perm (ndim t))) t1 = Inr t2" "shape t2 = shape t"
    "\<forall>idx. length idx = ndim t \<longrightarrow> elem t2 idx = elem t idx"
    using length_spatial_last_perm length_channel_last_perm spatial_after_channel channel_after_spatial by blast
  then show ?thesis using False assms by (auto simp: permute_one_def spatial_last_dims_nat channel_last_dims_nat)
qed

lemma step_loop_eq:
  "step_loop ss k w =
     (case shape k of
        [] \<Rightarrow> (if ss = [] then (Inr (), w) else (Inl IndexError, w))
      | b # bs \<Rightarrow> (Inr (), fold (\<lambda>s. step s b) ss w))"
  by (induction ss arbitrary: w) (auto split: list.splits)

lemma counters_fold_step:
  "counters (fold (\<lambda>s. step s b) ss w) s = counters w s + count_list ss s * b"
  by (induction ss arbitrary: w) (auto simp: step_def)

lemma gstate_fold_step: "gstate (fold (\<lambda>s. step s b) ss w) = gstate w"
  by (induction ss arbitrary: w) (auto simp: step_def)

lemma counters_realize: "realize g x w = (t, w1) \<Longrightarrow> counters w1 = counters w"
  by (auto simp: realize_def split: entity.splits prod.splits)

lemma counters_te_loop:
  "te_loop aug gs img tg mp tfms w = (r, w1) \<Longrightarrow> counters w1 = counters w"
proof (induction gs arbitrary: img tg mp tfms w)
  case Nil
  then show ?case by simp
next
  case (Cons g gs)
  obtain t wa where r: "realize g img w = (t, wa)" by (cases "realize g img w")
  then have c: "counters wa = counters w" by (rule counters_realize)
  show ?case
  proof (cases "is_NoOp t")
    case True
    with Cons.prems r have "te_loop aug gs img tg mp tfms wa = (r, w1)" by simp
    from Cons.IH [OF this] c show ?thesis by simp
  next
    case False
    with Cons.prems r obtain i2 t2 m2 f2 where "te_loop aug gs i2 t2 m2 f2 wa = (r, w1)"
      by simp
    from Cons.IH [OF this] c show ?thesis by simp
  qed
qed

lemma counters_ti_loop:
  "ti_loop gs k m tfms w = (r, w1) \<Longrightarrow> counters w1 = counters w"
proof (induction gs arbitrary: k tfms w)
  case Nil
  then show ?case by simp
next
  case (Cons g gs)
  obtain t wa where r: "realize g k w = (t, wa)" by (cases "realize g k w")
  then have c: "counters wa = counters w" by (rule counters_realize)
  show ?case
  proof (cases "is_NoOp t")
    case True
    with Cons.prems r have "ti_loop gs k m tfms wa = (r, w1)" by simp
    from Cons.IH [OF this] c show ?thesis by simp
  next
    case False
    with Cons.prems r obtain k2 f2 where "ti_loop gs k2 m f2 wa = (r, w1)"
      by simp
    from Cons.IH [OF this] c show ?thesis by simp
  qed
qed

lemma counters_apply_te:
  "apply_te aug gs img tg mp w = (r, w1) \<Longrightarrow> counters w1 = counters w"
  by (auto simp: apply_te_def split: prod.splits dest: counters_te_loop)

lemma counters_apply_ti:
  "apply_ti gs k m w = (r, w1) \<Longrightarrow> counters w1 = counters w"
  by (auto simp: apply_ti_def split: prod.splits dest: counters_ti_loop)

lemma counters_resolve_choices:
  "resolve_choices xs w = (rs, w1) \<Longrightarrow> counters w1 = counters w"
proof (induction xs arbitrary: w rs)
  case Nil
  then show ?case by simp
next
  case (Cons x xs)
  show ?case
  proof (cases "member x")
    case (Plain e)
    with Cons.prems obtain rs' where "resolve_choices xs w = (rs', w1)"
      by (auto split: prod.splits)
    from Cons.IH [OF this] show ?thesis .
  next
    case (RandomTransformChoice pick)
    obtain r s where p: "pick w = (r, s)" by (cases "pick w")
    with Cons.prems RandomTransformChoice obtain rs'
      where "resolve_choices xs (w\<lparr>gstate := s\<rparr>) = (rs', w1)"
      by (auto split: prod.splits)
    from Cons.IH [OF this] show ?thesis by simp
  qed
qed

lemma counters_select_transforms:
  "select_transforms self skip w = (r, w1) \<Longrightarrow> counters w1 = counters w"
  by (auto simp: select_transforms_def split: if_splits prod.splits dest: counters_resolve_choices)

lemma counters_image_stage:
  "image_stage ops aug es a w = (r, w1) \<Longrightarrow> counters w1 = counters w"
  by (auto simp: image_stage_def Let_def split: if_splits sum.splits prod.splits
           dest: counters_apply_te)

lemma counters_invariant_stage:
  "invariant_stage remask vs k mp mk w = (r, w1) \<Longrightarrow> counters w1 = counters w"
  by (auto simp: invariant_stage_def split: if_splits sum.splits prod.splits option.splits
           dest: counters_apply_ti)

lemma call_success:
  assumes "call ops self a w = (Inr (out, te, ti), w')"
  obtains es vs w1 k1 mp1 tg1 mk1 img1 w2 k2 tg2 mk2 mean std k3 w3 where
    "select_transforms self (skip_tfm a) w = (Inr (es, vs), w1)"
    "image_stage ops (aug_sensitivity_maps self) es a w1 = (Inr (k1, mp1, tg1, mk1, img1, te), w2)"
    "mask_norm_stage ops (mask_gen a) (normalizer a) k1 mp1 tg1 mk1 img1 = Inr (k2, tg2, mk2, mean, std)"
    "invariant_stage (remask_requested self a) vs k2 mp1 mk2 w2 = (Inr (k3, ti), w3)"
    "step_loop (schedulers self) k3 w3 = (Inr (), w')"
    "out = \<lparr> out_kspace = k3, out_maps = mp1, out_target = tg2, out_mean = mean, out_std = std \<rparr>"
  using assms unfolding call_def
  by (auto split: prod.splits sum.splits)

lemma select_transforms_none:
  "skip_tfm a \<or> tfms_or_gens self = [] \<Longrightarrow>
     select_transforms self (skip_tfm a) w = (Inr ([], []), w)"
  by (auto simp: select_transforms_def flatten_def classify_transforms_def)

lemma call_no_transforms:
  assumes "skip_tfm a \<or> tfms_or_gens self = []"
    and "normalizer a = None" and "mask_gen a = None"
  shows "call ops self a w =
           (if shape (kspace a) = [] \<and> schedulers self \<noteq> [] then (Inl IndexError, w)
            else (Inr (\<lparr> out_kspace = kspace a, out_maps = maps a, out_target = target a,
                         out_mean = None, out_std = None \<rparr>, [], []),
                  fold (\<lambda>s. step s (batch (kspace a))) (schedulers self) w))"
  using assms
  by (auto simp: call_def select_transforms_none image_stage_def mask_norm_stage_def
        invariant_stage_def step_loop_eq batch_def split: list.splits)

lemma ex_skip_call:
  "call ex_ops ex_shared (ex_args\<lparr>skip_tfm := True\<rparr>) ex_world =
     (Inr (\<lparr> out_kspace = ex_tensor, out_maps = Some ex_tensor, out_target = Some ex_tensor,
             out_mean = None, out_std = None \<rparr>, [], []),
      fold (\<lambda>s. step s 2) (schedulers ex_shared) ex_world)"
  using call_no_transforms [of "ex_args\<lparr>skip_tfm := True\<rparr>" ex_shared ex_ops ex_world]
  by (simp add: ex_args_def ex_tensor_def batch_def)

lemma wrap_dims_length: "wrap_dims n ds = Some ps \<Longrightarrow> length ps = length ds"
  by (induction ds arbitrary: ps) (auto split: option.splits)

lemma permute_one_rank:
  assumes "permute_one True (Some t) = Inr t1"
  shows "3 \<le> ndim t"
proof (rule ccontr)
  assume "\<not> 3 \<le> ndim t"
  then have "length (spatial_last_dims (ndim t)) \<noteq> ndim t"
    by (simp add: spatial_last_dims_def)
  with assms show False
    by (auto simp: permute_one_def permute_def split: option.splits if_splits
             dest: wrap_dims_length)
qed

lemma permute_data3:
  "permute_data b [x, y, z] = Inr ps \<longleftrightarrow>
     (\<exists>p q r. permute_one b x = Inr p \<and> permute_one b y = Inr q \<and> permute_one b z = Inr r
        \<and> ps = [p, q, r])"
  by (auto split: sum.splits)

lemma permute_one_no_assert: "permute_one b x \<noteq> Inl AssertionError"
  by (auto simp: permute_one_def permute_def split: option.splits)

lemma permute_data_no_assert: "permute_data b xs \<noteq> Inl AssertionError"
  by (induction xs) (auto simp: permute_one_no_assert split: sum.splits)

lemma te_loop_maps_kept:
  "te_loop False gs img tg mp tfms w = ((i, t, m, f), w1) \<Longrightarrow> m = mp"
proof (induction gs arbitrary: img tg mp tfms w)
  case Nil
  then show ?case by simp
next
  case (Cons g gs)
  obtain x wa where r: "realize g img w = (x, wa)" by (cases "realize g img w")
  show ?case
  proof (cases "is_NoOp x")
    case True
    with Cons.prems r have "te_loop False gs img tg mp tfms wa = ((i, t, m, f), w1)" by simp
    from Cons.IH [OF this] show ?thesis .
  next
    case False
    with Cons.prems r have "\<exists>i2 t2 f2. te_loop False gs i2 t2 mp f2 wa = ((i, t, m, f), w1)"
      by (cases mp) auto
    then show ?thesis using Cons.IH by blast
  qed
qed

lemma apply_te_maps_kept:
  "apply_te False gs img tg mp w = ((i, t, m, f), w1) \<Longrightarrow> m = mp"
  by (auto simp: apply_te_def split: prod.splits dest: te_loop_maps_kept)

lemma image_stage_maps_kept:
  assumes "image_stage ops False es a w = (Inr (k1, mp1, tg1, mk1, img1, te), w2)"
  shows "mp1 = maps a \<or>
         (\<exists>p q. permute_one True (maps a) = Inr p \<and> permute_one False (Some p) = Inr q
                 \<and> mp1 = Some q)"
proof (cases "es = []")
  case True
  with assms show ?thesis by (simp add: image_stage_def Let_def)
next
  case False
  with assms obtain ps i2 t2 m2 te2 wa qs where
    p: "permute_data True
          [if normalizer a \<noteq> None \<or> es \<noteq> []
           then Some (sense_adjoint ops (maps a)
                  (if (normalizer a \<noteq> None \<or> es \<noteq> []) \<and> mask a = Some (MaskBool True)
                   then Some (MaskTensor (get_mask ops (kspace a))) else mask a) (kspace a))
           else None, target a, maps a] = Inr ps"
    and t: "apply_te False es (ps ! 0) (Some (ps ! 1)) (Some (ps ! 2)) w = ((i2, t2, m2, te2), wa)"
    and q: "permute_data False [Some i2, t2, m2] = Inr qs"
    and m: "mp1 = Some (qs ! 2)"
    unfolding image_stage_def Let_def
    by (auto split: sum.splits prod.splits if_splits)
  from t have m2: "m2 = Some (ps ! 2)" by (rule apply_te_maps_kept)
  from p obtain a1 a2 a3 where ps: "ps = [a1, a2, a3]" "permute_one True (maps a) = Inr a3"
    unfolding permute_data3 by blast
  from q obtain b1 b2 b3 where qs: "qs = [b1, b2, b3]" "permute_one False m2 = Inr b3"
    unfolding permute_data3 by blast
  from ps qs m2 m show ?thesis by simp
qed

lemma maps_returned_unchanged:
  assumes "call ops self a w = (Inr (out, te, ti), w')"
    and "\<not> aug_sensitivity_maps self"
    and "maps a = Some m"
  shows "\<exists>m'. out_maps out = Some m' \<and> shape m' = shape m
           \<and> (\<forall>idx. length idx = ndim m \<longrightarrow> elem m' idx = elem m idx)"
proof -
  from assms(1) obtain es vs w1 k1 mp1 tg1 mk1 img1 w2 tg2 mean std k3 where
    s: "select_transforms self (skip_tfm a) w = (Inr (es, vs), w1)"
    and i: "image_stage ops (aug_sensitivity_maps self) es a w1 = (Inr (k1, mp1, tg1, mk1, img1, te), w2)"
    and o': "out = \<lparr> out_kspace = k3, out_maps = mp1, out_target = tg2, out_mean = mean, out_std = std \<rparr>"
    by (rule call_success) blast
  from o' have o: "out_maps out = mp1" by simp
  from i assms(2) have "image_stage ops False es a w1 = (Inr (k1, mp1, tg1, mk1, img1, te), w2)"
    by simp
  from image_stage_maps_kept [OF this] show ?thesis
  proof
    assume "mp1 = maps a"
    with o assms(3) show ?thesis by simp
  next
    assume "\<exists>p q. permute_one True (maps a) = Inr p \<and> permute_one False (Some p) = Inr q
                 \<and> mp1 = Some q"
    then obtain p q where pq: "permute_one True (Some m) = Inr p"
      "permute_one False (Some p) = Inr q" "mp1 = Some q"
      using assms(3) by auto
    from pq(1) have "3 \<le> ndim m" by (rule permute_one_rank)
    from permute_one_round_trip [OF this, of True] pq o show ?thesis by auto
  qed
qed

lemma mask_norm_stage_mask:
  "mask_norm_stage ops None nz k mp tg mk img = Inr (k2, tg2, mk2, mean, std) \<Longrightarrow> mk2 = mk"
  by (auto simp: mask_norm_stage_def split: option.splits)

lemma image_stage_mask:
  "image_stage ops aug es a w = (Inr (k1, mp1, tg1, mk1, img1, te), w2) \<Longrightarrow>
     mask a \<noteq> Some (MaskBool True) \<Longrightarrow> mk1 = mask a"
  by (auto simp: image_stage_def Let_def split: sum.splits prod.splits if_splits)


lemmas ex_defs = ex_tensor_def ex_world_def ex_ops_def ex_geometric_def ex_physics_def
  ex_noise_def ex_foreign_def ex_scale_def ex_gen_def ex_seed_tfm_gens_def ex_mask_def
  ex_args_def ex_pipeline_def ex_random_def

lemmas stage_defs = call_def select_transforms_def flatten_def classify_transforms_def
  tfm_kind_def image_stage_def mask_norm_stage_def invariant_stage_def apply_te_def
  apply_ti_def realize_def TransformList_def call_apply_kspace_def schedulers_def
  remask_requested_def mask_times_def tensor_mul_def bc_index_def

lemmas permute_defs = permute_one_def permute_def ndim_def spatial_last_dims_def
  channel_last_dims_def wrap_dim_def

lemma ex_noise_select:
  "select_transforms (ex_pipeline [ex_noise] True) False ex_world
     = (Inr ([], [Transform ex_noise]), ex_world)"
  by (simp add: stage_defs ex_defs)


lemma ex_equivariant_call:
  "\<exists>out te ti w'.
     call ex_ops (ex_pipeline [ex_geometric] False) ex_args ex_world = (Inr (out, te, ti), w')
     \<and> te \<noteq> []"
  by (simp add: stage_defs permute_defs ex_defs)


lemma init_with_seed:
  "init seed_tfm_gens to_device tfms aug (Some v) None remask w =
     (\<lparr> tfms_or_gens = tfms, aug_sensitivity_maps = aug,
         apply_mask_after_invariant_tfms = remask \<rparr>, w)"
  by (simp add: init_def)

lemma mask_times_no_assert: "mask_times m k \<noteq> Inl AssertionError"
  by (auto simp: mask_times_def tensor_mul_def split: mask_value.splits option.splits)

lemma invariant_stage_assert:
  "fst (invariant_stage r vs k mp mk w) = Inl AssertionError \<longleftrightarrow> vs \<noteq> [] \<and> r \<and> mk = None"
  using permute_one_no_assert [of True "Some k"] permute_one_no_assert [of True mp]
  by (auto simp: invariant_stage_def permute_one_no_assert mask_times_no_assert
           split: sum.splits prod.splits option.splits)

lemma image_stage_no_assert: "fst (image_stage ops aug es a w) \<noteq> Inl AssertionError"
  by (auto simp: image_stage_def Let_def permute_data_no_assert simp del: permute_data.simps
           split: sum.splits prod.splits)

lemma image_stage_img:
  "image_stage ops aug es a w = (Inr (k1, mp1, tg1, mk1, img1, te), w2) \<Longrightarrow>
     normalizer a \<noteq> None \<Longrightarrow> img1 \<noteq> None"
  by (auto simp: image_stage_def Let_def simp del: permute_data.simps
           split: sum.splits prod.splits if_splits)

lemma image_stage_mask_none:
  "image_stage ops aug es a w = (Inr (k1, mp1, tg1, mk1, img1, te), w2) \<Longrightarrow>
     mk1 = None \<longleftrightarrow> mask a = None"
  by (auto simp: image_stage_def Let_def simp del: permute_data.simps
           split: sum.splits prod.splits if_splits)

lemma mask_norm_stage_ok:
  assumes "nz \<noteq> None \<longrightarrow> img \<noteq> None"
  shows "\<exists>k2 tg2 mk2 mean std.
           mask_norm_stage ops mg nz k mp tg mk img = Inr (k2, tg2, mk2, mean, std)
           \<and> (mk2 = None \<longleftrightarrow> mg = None \<and> mk = None)"
  using assms by (auto simp: mask_norm_stage_def split: option.splits prod.splits)

lemma step_loop_no_assert: "fst (step_loop ss k w) \<noteq> Inl AssertionError"
  by (auto simp: step_loop_eq split: list.splits)

lemma select_transforms_cases:
  "select_transforms self skip w =
     (if skip then (Inr ([], []), w)
      else if list_all (\<lambda>t. is_Transform (tfm_kind t)) (flatten (fst (resolve_choices (tfms_or_gens self) w)))
           then (Inr (filter (\<lambda>t. is_Geometric (tfm_kind t)) (flatten (fst (resolve_choices (tfms_or_gens self) w))),
                      filter (\<lambda>t. \<not> is_Geometric (tfm_kind t)) (flatten (fst (resolve_choices (tfms_or_gens self) w)))),
                 snd (resolve_choices (tfms_or_gens self) w))
           else (Inl AssertionError, snd (resolve_choices (tfms_or_gens self) w)))"
  by (auto simp: select_transforms_def classify_transforms_def classify_loop_filter
           split: prod.splits)

lemma call_select_fail:
  "select_transforms self (skip_tfm a) w = (Inl e, w1) \<Longrightarrow> call ops self a w = (Inl e, w1)"
  by (simp add: call_def)

lemma call_image_fail:
  "select_transforms self (skip_tfm a) w = (Inr (es, vs), w1) \<Longrightarrow>
   image_stage ops (aug_sensitivity_maps self) es a w1 = (Inl e, w2) \<Longrightarrow>
   call ops self a w = (Inl e, w2)"
  by (simp add: call_def)

lemma call_invariant_fail:
  "select_transforms self (skip_tfm a) w = (Inr (es, vs), w1) \<Longrightarrow>
   image_stage ops (aug_sensitivity_maps self) es a w1 = (Inr (k1, mp1, tg1, mk1, img1, te), w2) \<Longrightarrow>
   mask_norm_stage ops (mask_gen a) (normalizer a) k1 mp1 tg1 mk1 img1 = Inr (k2, tg2, mk2, mean, std) \<Longrightarrow>
   invariant_stage (remask_requested self a) vs k2 mp1 mk2 w2 = (Inl e, w3) \<Longrightarrow>
   call ops self a w = (Inl e, w3)"
  by (simp add: call_def)

lemma call_invariant_ok:
  "select_transforms self (skip_tfm a) w = (Inr (es, vs), w1) \<Longrightarrow>
   image_stage ops (aug_sensitivity_maps self) es a w1 = (Inr (k1, mp1, tg1, mk1, img1, te), w2) \<Longrightarrow>
   mask_norm_stage ops (mask_gen a) (normalizer a) k1 mp1 tg1 mk1 img1 = Inr (k2, tg2, mk2, mean, std) \<Longrightarrow>
   invariant_stage (remask_requested self a) vs k2 mp1 mk2 w2 = (Inr (k3, ti), w3) \<Longrightarrow>
   fst (call ops self a w) \<noteq> Inl AssertionError"
  using step_loop_no_assert [of "schedulers self" k3 w3]
  by (cases "step_loop (schedulers self) k3 w3") (auto simp: call_def split: sum.splits)

lemma call_assert_classify:
  assumes "\<not> skip_tfm a"
    and "\<not> list_all (\<lambda>t. is_Transform (tfm_kind t))
               (flatten (fst (resolve_choices (tfms_or_gens self) w)))"
  shows "call ops self a w = (Inl AssertionError, snd (resolve_choices (tfms_or_gens self) w))"
proof -
  from assms have "select_transforms self (skip_tfm a) w
               = (Inl AssertionError, snd (resolve_choices (tfms_or_gens self) w))"
    by (simp add: select_transforms_cases)
  then show ?thesis by (rule call_select_fail)
qed

lemma select_transforms_ok:
  assumes "skip_tfm a \<or> list_all (\<lambda>t. is_Transform (tfm_kind t))
               (flatten (fst (resolve_choices (tfms_or_gens self) w)))"
  shows "\<exists>es vs w1. select_transforms self (skip_tfm a) w = (Inr (es, vs), w1)"
proof (cases "skip_tfm a")
  case True
  then show ?thesis by (simp add: select_transforms_cases)
next
  case False
  with assms show ?thesis by (simp add: select_transforms_cases)
qed

lemma call_assert_image_fail:
  assumes s: "select_transforms self (skip_tfm a) w = (Inr (es, vs), w1)"
    and i: "isl (fst (image_stage ops (aug_sensitivity_maps self) es a w1))"
  shows "fst (call ops self a w) \<noteq> Inl AssertionError"
proof -
  obtain r w2 where p: "image_stage ops (aug_sensitivity_maps self) es a w1 = (r, w2)"
    by (cases "image_stage ops (aug_sensitivity_maps self) es a w1")
  with i obtain e where e: "r = Inl e" by (cases r) simp_all
  from image_stage_no_assert [of ops "aug_sensitivity_maps self" es a w1] p e
  have ne: "e \<noteq> AssertionError" by simp
  from p e have "image_stage ops (aug_sensitivity_maps self) es a w1 = (Inl e, w2)" by simp
  from call_image_fail [OF s this] ne show ?thesis by simp
qed

lemma mask_norm_stage_after_image:
  assumes i: "image_stage ops (aug_sensitivity_maps self) es a w1
              = (Inr (k1, mp1, tg1, mk1, img1, te), w2)"
  shows "\<exists>k2 tg2 mk2 mean std. mask_norm_stage ops (mask_gen a) (normalizer a) k1 mp1 tg1 mk1 img1
          = Inr (k2, tg2, mk2, mean, std) \<and> (mk2 = None) = (mask_gen a = None \<and> mk1 = None)"
proof -
  from image_stage_img [OF i] have "normalizer a \<noteq> None \<longrightarrow> img1 \<noteq> None" by blast
  from mask_norm_stage_ok [OF this] show ?thesis .
qed

lemma call_assert_invariant:
  assumes s: "select_transforms self (skip_tfm a) w = (Inr (es, vs), w1)"
    and i: "image_stage ops (aug_sensitivity_maps self) es a w1
              = (Inr (k1, mp1, tg1, mk1, img1, te), w2)"
  shows "fst (call ops self a w) = Inl AssertionError \<longleftrightarrow>
           vs \<noteq> [] \<and> remask_requested self a \<and> mask a = None \<and> mask_gen a = None"
proof -
  from mask_norm_stage_after_image [OF i] obtain k2 tg2 mk2 mean std where
    m: "mask_norm_stage ops (mask_gen a) (normalizer a) k1 mp1 tg1 mk1 img1
          = Inr (k2, tg2, mk2, mean, std)"
    and mk: "(mk2 = None) = (mask_gen a = None \<and> mk1 = None)"
    by blast
  have mk1: "(mk1 = None) = (mask a = None)" by (rule image_stage_mask_none [OF i])
  have a: "(vs \<noteq> [] \<and> remask_requested self a \<and> mk2 = None) =
           (vs \<noteq> [] \<and> remask_requested self a \<and> mask a = None \<and> mask_gen a = None)"
    using mk mk1 by blast
  obtain r3 w3 where p: "invariant_stage (remask_requested self a) vs k2 mp1 mk2 w2 = (r3, w3)"
    by (cases "invariant_stage (remask_requested self a) vs k2 mp1 mk2 w2")
  have ia: "(r3 = Inl AssertionError) = (vs \<noteq> [] \<and> remask_requested self a \<and> mk2 = None)"
    using invariant_stage_assert [of "remask_requested self a" vs k2 mp1 mk2 w2] p by simp
  show ?thesis
  proof (cases r3)
    case (Inl e3)
    with p have "invariant_stage (remask_requested self a) vs k2 mp1 mk2 w2 = (Inl e3, w3)"
      by simp
    from call_invariant_fail [OF s i m this] have "call ops self a w = (Inl e3, w3)" .
    then have "fst (call ops self a w) = Inl AssertionError \<longleftrightarrow> r3 = Inl AssertionError"
      using Inl by simp
    with ia a show ?thesis by simp
  next
    case (Inr q3)
    obtain k3 ti where q: "q3 = (k3, ti)" by (cases q3)
    from p Inr q have "invariant_stage (remask_requested self a) vs k2 mp1 mk2 w2
                         = (Inr (k3, ti), w3)" by simp
    from call_invariant_ok [OF s i m this] have n: "fst (call ops self a w) \<noteq> Inl AssertionError" .
    from Inr have "r3 \<noteq> Inl AssertionError" by simp
    with ia a have "\<not> (vs \<noteq> [] \<and> remask_requested self a \<and> mask a = None \<and> mask_gen a = None)"
      by blast
    with n show ?thesis by blast
  qed
qed

lemma call_assert_world:
  assumes f: "fst (call ops self a w) = Inl AssertionError"
  shows "counters (snd (call ops self a w)) = counters w"
proof -
  obtain r w1 where s: "select_transforms self (skip_tfm a) w = (r, w1)"
    by (cases "select_transforms self (skip_tfm a) w")
  have c1: "counters w1 = counters w" by (rule counters_select_transforms [OF s])
  show ?thesis
  proof (cases r)
    case (Inl e)
    with s have "select_transforms self (skip_tfm a) w = (Inl e, w1)" by simp
    from call_select_fail [OF this] c1 show ?thesis by simp
  next
    case (Inr p)
    obtain es vs where p: "p = (es, vs)" by (cases p)
    from s Inr p have s': "select_transforms self (skip_tfm a) w = (Inr (es, vs), w1)" by simp
    obtain r2 w2 where i: "image_stage ops (aug_sensitivity_maps self) es a w1 = (r2, w2)"
      by (cases "image_stage ops (aug_sensitivity_maps self) es a w1")
    have c2: "counters w2 = counters w1" by (rule counters_image_stage [OF i])
    show ?thesis
    proof (cases r2)
      case (Inl e)
      with i have "image_stage ops (aug_sensitivity_maps self) es a w1 = (Inl e, w2)" by simp
      from call_image_fail [OF s' this] c1 c2 show ?thesis by simp
    next
      case (Inr q)
      obtain k1 mp1 tg1 mk1 img1 te where q: "q = (k1, mp1, tg1, mk1, img1, te)" by (cases q)
      from i Inr q have i': "image_stage ops (aug_sensitivity_maps self) es a w1
                               = (Inr (k1, mp1, tg1, mk1, img1, te), w2)" by simp
      from mask_norm_stage_after_image [OF i'] obtain k2 tg2 mk2 mean std where
        m: "mask_norm_stage ops (mask_gen a) (normalizer a) k1 mp1 tg1 mk1 img1
              = Inr (k2, tg2, mk2, mean, std)"
        by blast
      obtain r3 w3 where v: "invariant_stage (remask_requested self a) vs k2 mp1 mk2 w2 = (r3, w3)"
        by (cases "invariant_stage (remask_requested self a) vs k2 mp1 mk2 w2")
      have c3: "counters w3 = counters w2" by (rule counters_invariant_stage [OF v])
      show ?thesis
      proof (cases r3)
        case (Inl e3)
        with v have "invariant_stage (remask_requested self a) vs k2 mp1 mk2 w2 = (Inl e3, w3)"
          by simp
        from call_invariant_fail [OF s' i' m this] c1 c2 c3 show ?thesis by simp
      next
        case (Inr q3)
        obtain k3 ti where "q3 = (k3, ti)" by (cases q3)
        with v Inr have "invariant_stage (remask_requested self a) vs k2 mp1 mk2 w2
                           = (Inr (k3, ti), w3)" by simp
        from call_invariant_ok [OF s' i' m this] f show ?thesis by simp
      qed
    qed
  qed
qed

lemma call_assertion:
  "fst (call ops self a w) = Inl AssertionError \<longleftrightarrow>
     (\<not> skip_tfm a
        \<and> \<not> list_all (\<lambda>t. is_Transform (tfm_kind t))
               (flatten (fst (resolve_choices (tfms_or_gens self) w))))
     \<or> (\<exists>es vs w1. select_transforms self (skip_tfm a) w = (Inr (es, vs), w1)
           \<and> vs \<noteq> [] \<and> remask_requested self a \<and> mask a = None \<and> mask_gen a = None
           \<and> \<not> isl (fst (image_stage ops (aug_sensitivity_maps self) es a w1)))"
  (is "?L \<longleftrightarrow> ?A \<or> ?B")
proof (cases ?A)
  case True
  with call_assert_classify [of a self w ops] show ?thesis by simp
next
  case False
  then have "skip_tfm a \<or> list_all (\<lambda>t. is_Transform (tfm_kind t))
               (flatten (fst (resolve_choices (tfms_or_gens self) w)))" by blast
  from select_transforms_ok [OF this]
  obtain es vs w1 where s: "select_transforms self (skip_tfm a) w = (Inr (es, vs), w1)"
    by blast
  have B: "?B \<longleftrightarrow> vs \<noteq> [] \<and> remask_requested self a \<and> mask a = None \<and> mask_gen a = None
           \<and> \<not> isl (fst (image_stage ops (aug_sensitivity_maps self) es a w1))"
    using s by simp
  show ?thesis
  proof (cases "isl (fst (image_stage ops (aug_sensitivity_maps self) es a w1))")
    case True
    from call_assert_image_fail [OF s True] have "\<not> ?L" .
    moreover from True B have "\<not> ?B" by simp
    ultimately show ?thesis using False by blast
  next
    case n: False
    obtain r2 w2 where i: "image_stage ops (aug_sensitivity_maps self) es a w1 = (r2, w2)"
      by (cases "image_stage ops (aug_sensitivity_maps self) es a w1")
    with n obtain q where "r2 = Inr q" by (cases r2) simp_all
    moreover obtain k1 mp1 tg1 mk1 img1 te where "q = (k1, mp1, tg1, mk1, img1, te)" by (cases q)
    ultimately have i': "image_stage ops (aug_sensitivity_maps self) es a w1
                               = (Inr (k1, mp1, tg1, mk1, img1, te), w2)" using i by simp
    from call_assert_invariant [OF s i'] have "?L \<longleftrightarrow> ?B" unfolding B using n by simp
    with False show ?thesis by blast
  qed
qed

lemmas fp_defs = fp_tensor_def fp_mask_def fp_ops_def fp_corrupt_def fp_self_def fp_args_def
  zero_ieee_def one_ieee_def ex_world_def

lemma permute_ndim:
  assumes "permute dims t = Inr t1"
  shows "length dims = ndim t \<and> ndim t1 = ndim t"
  using assms
  by (auto simp: permute_def ndim_def split: option.splits if_splits dest: wrap_dims_length)

lemma permute_one_ndim:
  assumes "permute_one b (Some t) = Inr t1"
  shows "3 \<le> ndim t \<and> ndim t1 = ndim t"
proof -
  from assms have p: "permute (if b then spatial_last_dims (ndim t) else channel_last_dims (ndim t)) t = Inr t1"
    by (simp add: permute_one_def)
  from permute_ndim [OF p] have l: "length (if b then spatial_last_dims (ndim t) else channel_last_dims (ndim t)) = ndim t"
    and n: "ndim t1 = ndim t" by simp_all
  from l have "3 \<le> ndim t"
    by (cases b) (auto simp: spatial_last_dims_def channel_last_dims_def)
  with n show ?thesis by simp
qed

lemma invariant_stage_remask:
  assumes "invariant_stage True vs k mp (Some m) w = (Inr (k4, ti), w3)"
    and "vs \<noteq> []"
  shows "\<exists>k3. invariant_stage False vs k mp (Some m) w = (Inr (k3, ti), w3)
           \<and> mask_times m k3 = Inr k4 \<and> shape k3 \<noteq> []"
proof -
  from assms obtain k1 m1 k2 k3 where
    a: "permute_one True (Some k) = Inr k1" "permute_one True mp = Inr m1"
       "apply_ti vs k1 m1 w = ((k2, ti), w3)" "permute_one False (Some k2) = Inr k3"
       "mask_times m k3 = Inr k4"
    by (auto simp: invariant_stage_def split: sum.splits prod.splits)
  from permute_one_ndim [OF a(4)] have "3 \<le> ndim k3" by simp
  then have "shape k3 \<noteq> []" by (auto simp: ndim_def)
  with a assms(2) show ?thesis by (simp add: invariant_stage_def)
qed

lemma image_stage_override:
  "image_stage ops aug es (a\<lparr>override := x\<rparr>) w = image_stage ops aug es a w"
  by (simp add: image_stage_def Let_def del: permute_data.simps
        cong: sum.case_cong prod.case_cong if_cong)

lemma call_stages:
  assumes "select_transforms self (skip_tfm a) w = (Inr (es, vs), w1)"
    and "image_stage ops (aug_sensitivity_maps self) es a w1 = (Inr (k1, mp1, tg1, mk1, img1, te), w2)"
    and "mask_norm_stage ops (mask_gen a) (normalizer a) k1 mp1 tg1 mk1 img1 = Inr (k2, tg2, mk2, mean, std)"
    and "invariant_stage (remask_requested self a) vs k2 mp1 mk2 w2 = (Inr (k3, ti), w3)"
    and "shape k3 \<noteq> []"
  shows "call ops self a w =
           (Inr (\<lparr> out_kspace = k3, out_maps = mp1, out_target = tg2, out_mean = mean,
                   out_std = std \<rparr>, te, ti),
            fold (\<lambda>s. step s (batch k3)) (schedulers self) w3)"
  using assms by (simp add: call_def step_loop_eq batch_def split: list.splits)

lemma mask_in_force_stages:
  assumes "select_transforms self (skip_tfm a) w = (Inr (es, vs), w1)"
    and "image_stage ops (aug_sensitivity_maps self) es a w1 = (Inr (k1, mp1, tg1, mk1, img1, te), w2)"
    and "mask_norm_stage ops (mask_gen a) (normalizer a) k1 mp1 tg1 mk1 img1 = Inr (k2, tg2, mk2, mean, std)"
  shows "mask_in_force ops self a w = mk2"
  using assms by (simp add: mask_in_force_def)

lemma tensor_mul_elem:
  assumes "tensor_mul a b = Inr c"
  shows "broadcast_rev (rev (shape a)) (rev (shape b)) = Some (rev (shape c))
         \<and> (\<forall>idx. elem c idx = elem a (bc_index (shape a) idx) * elem b (bc_index (shape b) idx))"
  using assms by (auto simp: tensor_mul_def split: option.splits)

lemma ex_undersampled_call:
  "\<exists>out te ti w'.
     call ex_ops (ex_pipeline [ex_noise] True) ex_undersampled ex_world = (Inr (out, te, ti), w')"
  by (simp add: ex_undersampled_def stage_defs permute_defs ex_defs)

lemma ex_undersampled_plain:
  "\<exists>out0 te ti w0.
     call ex_ops (ex_pipeline [ex_noise] True) (ex_undersampled\<lparr>override := Some False\<rparr>) ex_world
       = (Inr (out0, te, ti), w0)
     \<and> shape (out_kspace out0) = [2, 3, 4, 5]
     \<and> elem (out_kspace out0) [1, 2, 3, 4] = 43
     \<and> elem (out_kspace out0) [1, 0, 3, 4] = 41"
  by (simp add: ex_undersampled_def stage_defs permute_defs ex_defs)

lemma ex_undersampled_select:
  "select_transforms (ex_pipeline [ex_noise] True) (skip_tfm ex_undersampled) ex_world
     = (Inr ([], [Transform ex_noise]), ex_world)"
  by (simp add: ex_undersampled_def stage_defs ex_defs)

lemma ex_undersampled_mask:
  "mask_in_force ex_ops (ex_pipeline [ex_noise] True) ex_undersampled ex_world
     = Some (MaskTensor ex_mask)"
  by (simp add: mask_in_force_def ex_undersampled_def stage_defs ex_defs)












section \<open>The claims\<close>

subsection \<open>A call without transforms\<close>

text \<open>
  C1. When the transform list is empty or \<open>skip_tfm\<close> is true, and neither a normalizer nor
  a mask generator is supplied, the call returns the measurement data, the maps and the
  target it was given, \<open>mean\<close> and \<open>std\<close> are \<open>None\<close>, and both provenance lists are empty.
  The call returns in every such case but one: \<open>kspace.shape[0]\<close> is read for the
  schedulers, so measurement data without any axis raises when there is a scheduler.
\<close>

theorem call_without_transforms:
  assumes "skip_tfm a \<or> tfms_or_gens self = []"
    and "normalizer a = None" and "mask_gen a = None"
  shows "fst (call ops self a w) =
           (if shape (kspace a) = [] \<and> schedulers self \<noteq> [] then Inl IndexError
            else Inr (\<lparr> out_kspace = kspace a, out_maps = maps a, out_target = target a,
                        out_mean = None, out_std = None \<rparr>, [], []))"
  using call_no_transforms [OF assms, of ops w] by simp

theorem call_without_transforms_witness:
  "(skip_tfm (ex_args\<lparr>skip_tfm := True\<rparr>) \<or> tfms_or_gens ex_shared = [])
   \<and> normalizer (ex_args\<lparr>skip_tfm := True\<rparr>) = None
   \<and> mask_gen (ex_args\<lparr>skip_tfm := True\<rparr>) = None
   \<and> fst (call ex_ops ex_shared (ex_args\<lparr>skip_tfm := True\<rparr>) ex_world) =
        Inr (\<lparr> out_kspace = ex_tensor, out_maps = Some ex_tensor, out_target = Some ex_tensor,
                out_mean = None, out_std = None \<rparr>, [], [])"
  using call_without_transforms [of "ex_args\<lparr>skip_tfm := True\<rparr>" ex_shared ex_ops ex_world]
  by (simp add: ex_args_def ex_tensor_def)

subsection \<open>The layout adapter\<close>

text \<open>
  C2. For every tensor of rank at least three, the layout adapter applied in one direction
  and then in the other succeeds both times and returns a tensor with the shape of the
  original and the same element at every index, whichever direction comes first.
\<close>

theorem layout_round_trip:
  assumes "3 \<le> ndim t"
  shows "\<exists>t1 t2. permute_one b (Some t) = Inr t1 \<and> permute_one (\<not> b) (Some t1) = Inr t2
           \<and> shape t2 = shape t
           \<and> (\<forall>idx. length idx = ndim t \<longrightarrow> elem t2 idx = elem t idx)"
  using assms by (rule permute_one_round_trip)

theorem layout_round_trip_witness:
  "3 \<le> ndim ex_tensor
   \<and> (\<exists>t1 t2. permute_one True (Some ex_tensor) = Inr t1
         \<and> permute_one False (Some t1) = Inr t2
         \<and> shape t2 = [2, 3, 4, 5] \<and> elem t2 [1, 2, 3, 4] = 42)"
proof -
  have h: "3 \<le> ndim ex_tensor" by (simp add: ndim_def ex_tensor_def)
  from layout_round_trip [OF h, of True] obtain t1 t2 where
    a: "permute_one True (Some ex_tensor) = Inr t1" "permute_one False (Some t1) = Inr t2"
    and s: "shape t2 = shape ex_tensor"
    and e: "\<forall>idx. length idx = ndim ex_tensor \<longrightarrow> elem t2 idx = elem ex_tensor idx"
    by auto
  have "elem t2 [1, 2, 3, 4] = elem ex_tensor [1, 2, 3, 4]"
    using e by (simp add: ndim_def ex_tensor_def)
  then have "elem t2 [1, 2, 3, 4] = 42" by (simp add: ex_tensor_def)
  with h a s show ?thesis by (auto simp: ex_tensor_def)
qed

subsection \<open>Classification\<close>

text \<open>
  C3. On a flat list whose elements all have a transform class below \<open>Transform\<close>,
  \<open>_classify_transforms\<close> returns the geometric elements and the other elements, each in
  the order of the input: the two lists together hold every element of the input exactly
  as often as the input does, and each is a subsequence of the input.
\<close>

theorem classify_transforms_partition:
  assumes "list_all (\<lambda>t. is_Transform (tfm_kind t)) ts"
  shows "classify_transforms ts =
           Inr (filter (\<lambda>t. is_Geometric (tfm_kind t)) ts,
                filter (\<lambda>t. \<not> is_Geometric (tfm_kind t)) ts)
         \<and> mset (filter (\<lambda>t. is_Geometric (tfm_kind t)) ts)
             + mset (filter (\<lambda>t. \<not> is_Geometric (tfm_kind t)) ts) = mset ts
         \<and> subseq (filter (\<lambda>t. is_Geometric (tfm_kind t)) ts) ts
         \<and> subseq (filter (\<lambda>t. \<not> is_Geometric (tfm_kind t)) ts) ts"
  using assms by (simp add: classify_transforms_def classify_loop_filter)

theorem classify_transforms_partition_witness:
  "list_all (\<lambda>t. is_Transform (tfm_kind t))
     [Transform ex_physics, Transform ex_geometric, Transform ex_physics :: (int, nat) entity]
   \<and> classify_transforms
       [Transform ex_physics, Transform ex_geometric, Transform ex_physics :: (int, nat) entity]
       = Inr ([Transform ex_geometric], [Transform ex_physics, Transform ex_physics])"
  using classify_transforms_partition
    [of "[Transform ex_physics, Transform ex_geometric, Transform ex_physics :: (int, nat) entity]"]
  by (simp add: tfm_kind_def ex_physics_def ex_geometric_def)

subsection \<open>Stepping the schedulers\<close>

text \<open>
  C7, as amended. On every call that returns, the progress counter of a scheduler is
  advanced by the first-axis length of the returned measurement data once for each of its
  occurrences in \<open>schedulers()\<close>: exactly once when \<open>schedulers()\<close> lists it once, not at
  all when it is not listed, whether or not a transform was applied.
\<close>

theorem schedulers_stepped_per_occurrence:
  assumes "call ops self a w = (Inr (out, te, ti), w')"
  shows "counters w' s = counters w s + count_list (schedulers self) s * batch (out_kspace out)"
proof -
  from assms obtain es vs w1 k1 mp1 tg1 mk1 img1 w2 k2 tg2 mk2 mean std k3 w3 where
    st: "select_transforms self (skip_tfm a) w = (Inr (es, vs), w1)"
      "image_stage ops (aug_sensitivity_maps self) es a w1 = (Inr (k1, mp1, tg1, mk1, img1, te), w2)"
      "invariant_stage (remask_requested self a) vs k2 mp1 mk2 w2 = (Inr (k3, ti), w3)"
      "step_loop (schedulers self) k3 w3 = (Inr (), w')"
      "out = \<lparr> out_kspace = k3, out_maps = mp1, out_target = tg2, out_mean = mean, out_std = std \<rparr>"
    by (rule call_success)
  have c: "counters w3 = counters w"
    using counters_select_transforms [OF st(1)] counters_image_stage [OF st(2)]
      counters_invariant_stage [OF st(3)] by simp
  show ?thesis
  proof (cases "shape k3")
    case Nil
    with st(4) have "schedulers self = []" "w' = w3"
      by (auto simp: step_loop_eq split: if_splits)
    with c show ?thesis by simp
  next
    case (Cons b bs)
    with st(4) have "w' = fold (\<lambda>s. step s b) (schedulers self) w3"
      by (simp add: step_loop_eq)
    with c Cons st(5) show ?thesis by (simp add: counters_fold_step batch_def)
  qed
qed

theorem schedulers_stepped_per_occurrence_witness:
  "\<exists>out te ti w'.
      call ex_ops ex_shared (ex_args\<lparr>skip_tfm := True\<rparr>) ex_world = (Inr (out, te, ti), w')
      \<and> batch (out_kspace out) = 2 \<and> counters w' 0 = 4 \<and> counters w' 1 = 0"
proof -
  have "counters (fold (\<lambda>s. step s 2) (schedulers ex_shared) ex_world) 0 = 4"
    and "counters (fold (\<lambda>s. step s 2) (schedulers ex_shared) ex_world) 1 = 0"
    using schedulers_stepped_per_occurrence [OF ex_skip_call]
    by (simp_all add: schedulers_def ex_shared_def batch_def ex_tensor_def ex_world_def)
  with ex_skip_call show ?thesis by (simp add: batch_def ex_tensor_def)
qed

text \<open>
  The claim as it was stated fails when \<open>schedulers()\<close> lists a scheduler twice: two
  elements of the transform list share the scheduler at address 0, the batch has two
  samples, and one call advances the counter by four.
\<close>

theorem scheduler_stepped_once_counterexample:
  "0 \<in> set (schedulers ex_shared)
   \<and> fst (call ex_ops ex_shared (ex_args\<lparr>skip_tfm := True\<rparr>) ex_world) =
        Inr (\<lparr> out_kspace = ex_tensor, out_maps = Some ex_tensor, out_target = Some ex_tensor,
                out_mean = None, out_std = None \<rparr>, [], [])
   \<and> shape ex_tensor = [2, 3, 4, 5]
   \<and> counters ex_world 0 = 0
   \<and> counters (snd (call ex_ops ex_shared (ex_args\<lparr>skip_tfm := True\<rparr>) ex_world)) 0 = 4"
  by (simp add: ex_skip_call) (simp add: schedulers_def step_def ex_shared_def ex_tensor_def ex_world_def)

subsection \<open>Re-masking after the invariant transforms\<close>

text \<open>
  C4, as amended. Let \<open>M\<close> be the tensor mask in force when the invariant stage is reached
  (passed, derived from the measurement data, or returned by the mask generator), and let
  re-masking after the invariant transforms be in force. Whenever the classified list has
  an invariant transform and the call returns, the same call with re-masking disabled
  returns too, with the same provenance lists, maps and target, and the returned
  measurement data is the broadcast product of \<open>M\<close> and the measurement data of that
  other call: entry by entry, the mask value times the value the invariant transforms left.
  So it is zero wherever the mask is zero and zero times the value left there is zero,
  which holds for every finite value. Nothing is assumed of the multiplication.
\<close>

theorem remask_multiplies_by_mask:
  assumes c: "call ops self a w = (Inr (out, te, ti), w')"
    and s: "select_transforms self (skip_tfm a) w = (Inr (es, vs), w1)"
    and v: "vs \<noteq> []"
    and r: "remask_requested self a"
    and m: "mask_in_force ops self a w = Some (MaskTensor M)"
  shows "\<exists>out0 w0.
           call ops self (a\<lparr>override := Some False\<rparr>) w = (Inr (out0, te, ti), w0)
         \<and> out_maps out0 = out_maps out \<and> out_target out0 = out_target out
         \<and> broadcast_rev (rev (shape M)) (rev (shape (out_kspace out0)))
             = Some (rev (shape (out_kspace out)))
         \<and> (\<forall>idx. elem (out_kspace out) idx =
                    elem M (bc_index (shape M) idx)
                      * elem (out_kspace out0) (bc_index (shape (out_kspace out0)) idx))
         \<and> (\<forall>idx. elem M (bc_index (shape M) idx) = 0
                \<longrightarrow> 0 * elem (out_kspace out0) (bc_index (shape (out_kspace out0)) idx) = 0
                \<longrightarrow> elem (out_kspace out) idx = 0)"
proof -
  from c obtain es' vs' w1' k1 mp1 tg1 mk1 img1 w2 k2 tg2 mk2 mean std k4 w3 where
    st: "select_transforms self (skip_tfm a) w = (Inr (es', vs'), w1')"
      "image_stage ops (aug_sensitivity_maps self) es' a w1' = (Inr (k1, mp1, tg1, mk1, img1, te), w2)"
      "mask_norm_stage ops (mask_gen a) (normalizer a) k1 mp1 tg1 mk1 img1 = Inr (k2, tg2, mk2, mean, std)"
      "invariant_stage (remask_requested self a) vs' k2 mp1 mk2 w2 = (Inr (k4, ti), w3)"
      "out = \<lparr> out_kspace = k4, out_maps = mp1, out_target = tg2, out_mean = mean, out_std = std \<rparr>"
    by (rule call_success) blast
  from st(1) s have e: "es' = es" "vs' = vs" "w1' = w1" by simp_all
  from mask_in_force_stages [OF st(1,2,3)] m have mk: "mk2 = Some (MaskTensor M)" by simp
  from st(4) r e mk have "invariant_stage True vs k2 mp1 (Some (MaskTensor M)) w2 = (Inr (k4, ti), w3)"
    by simp
  from invariant_stage_remask [OF this v] obtain k3 where
    i: "invariant_stage False vs k2 mp1 (Some (MaskTensor M)) w2 = (Inr (k3, ti), w3)"
    and t: "mask_times (MaskTensor M) k3 = Inr k4" and n: "shape k3 \<noteq> []"
    by blast
  let ?a = "a\<lparr>override := Some False\<rparr>"
  have s': "select_transforms self (skip_tfm ?a) w = (Inr (es, vs), w1)" using s by simp
  have i': "image_stage ops (aug_sensitivity_maps self) es ?a w1 = (Inr (k1, mp1, tg1, mk1, img1, te), w2)"
    using st(2) e by (simp add: image_stage_override)
  have m': "mask_norm_stage ops (mask_gen ?a) (normalizer ?a) k1 mp1 tg1 mk1 img1
              = Inr (k2, tg2, Some (MaskTensor M), mean, std)"
    using st(3) mk by simp
  have v': "invariant_stage (remask_requested self ?a) vs k2 mp1 (Some (MaskTensor M)) w2
              = (Inr (k3, ti), w3)"
    using i by (simp add: remask_requested_def)
  from t have "tensor_mul M k3 = Inr k4" by (simp add: mask_times_def)
  from tensor_mul_elem [OF this] have
    b: "broadcast_rev (rev (shape M)) (rev (shape k3)) = Some (rev (shape k4))"
    and p: "\<forall>idx. elem k4 idx = elem M (bc_index (shape M) idx) * elem k3 (bc_index (shape k3) idx)"
    by simp_all
  from p have z: "\<forall>idx. elem M (bc_index (shape M) idx) = 0
                \<longrightarrow> 0 * elem k3 (bc_index (shape k3) idx) = 0 \<longrightarrow> elem k4 idx = 0"
    by simp
  from call_stages [OF s' i' m' v' n] st(5) b p z show ?thesis by simp
qed

theorem remask_multiplies_by_mask_witness:
  "\<exists>out out0 te ti w' w0.
     call ex_ops (ex_pipeline [ex_noise] True) ex_undersampled ex_world = (Inr (out, te, ti), w')
     \<and> call ex_ops (ex_pipeline [ex_noise] True) (ex_undersampled\<lparr>override := Some False\<rparr>)
           ex_world = (Inr (out0, te, ti), w0)
     \<and> elem (out_kspace out0) [1, 2, 3, 4] = 43 \<and> elem (out_kspace out) [1, 2, 3, 4] = 0
     \<and> elem (out_kspace out0) [1, 0, 3, 4] = 41 \<and> elem (out_kspace out) [1, 0, 3, 4] = 41"
proof -
  from ex_undersampled_call obtain out te ti w' where
    c: "call ex_ops (ex_pipeline [ex_noise] True) ex_undersampled ex_world = (Inr (out, te, ti), w')"
    by blast
  have v: "[Transform ex_noise :: (int, nat) entity] \<noteq> []" by simp
  have r: "remask_requested (ex_pipeline [ex_noise] True :: (int, nat) augmentor) ex_undersampled"
    by (simp add: remask_requested_def ex_undersampled_def)
  from remask_multiplies_by_mask [OF c ex_undersampled_select v r ex_undersampled_mask]
  obtain out0 w0 where
    c0: "call ex_ops (ex_pipeline [ex_noise] True) (ex_undersampled\<lparr>override := Some False\<rparr>)
           ex_world = (Inr (out0, te, ti), w0)"
    and p: "\<forall>idx. elem (out_kspace out) idx =
                    elem ex_mask (bc_index (shape ex_mask) idx)
                      * elem (out_kspace out0) (bc_index (shape (out_kspace out0)) idx)"
    by blast
  from ex_undersampled_plain c0 have
    k: "shape (out_kspace out0) = [2, 3, 4, 5]" "elem (out_kspace out0) [1, 2, 3, 4] = 43"
       "elem (out_kspace out0) [1, 0, 3, 4] = 41"
    by auto
  from p k have "elem (out_kspace out) [1, 2, 3, 4] = 0" "elem (out_kspace out) [1, 0, 3, 4] = 41"
    by (simp_all add: bc_index_def ex_mask_def)
  with c c0 k show ?thesis by blast
qed

text \<open>
  The claim as it was stated fails for an invariant transform that writes NaN outside the
  support of the mask: the product of zero and NaN is NaN, so the entry is not reset.
\<close>

theorem remask_nan_counterexample:
  "remask_requested fp_self fp_args
   \<and> mask fp_args = Some (MaskTensor fp_mask)
   \<and> elem fp_mask (bc_index (shape fp_mask) [1, 2, 0, 4]) = 0
   \<and> \<not> isl (fst (call fp_ops fp_self fp_args ex_world))
   \<and> elem (out_kspace (fst (projr (fst (call fp_ops fp_self fp_args ex_world))))) [1, 2, 0, 4] = NaN
   \<and> NaN \<noteq> (0 :: ieee)"
  by (simp add: stage_defs permute_defs fp_defs)

subsection \<open>Maps without map augmentation\<close>

text \<open>
  C6. With \<open>aug_sensitivity_maps\<close> false, every call that returns gives back maps with the
  shape of the input maps and the same element at every index; in particular a call whose
  transforms are all equivariant, where image and target are transformed.
\<close>

theorem maps_unchanged_without_augmentation:
  assumes "call ops self a w = (Inr (out, te, ti), w')"
    and "\<not> aug_sensitivity_maps self"
    and "maps a = Some m"
  shows "\<exists>m'. out_maps out = Some m' \<and> shape m' = shape m
           \<and> (\<forall>idx. length idx = ndim m \<longrightarrow> elem m' idx = elem m idx)"
  using assms by (rule maps_returned_unchanged)

theorem maps_unchanged_without_augmentation_witness:
  "\<exists>out te ti w' m'.
     call ex_ops (ex_pipeline [ex_geometric] False) ex_args ex_world = (Inr (out, te, ti), w')
     \<and> te \<noteq> []
     \<and> out_maps out = Some m' \<and> shape m' = [2, 3, 4, 5] \<and> elem m' [1, 2, 3, 4] = 42"
proof -
  from ex_equivariant_call obtain out te ti w' where
    c: "call ex_ops (ex_pipeline [ex_geometric] False) ex_args ex_world = (Inr (out, te, ti), w')"
    and t: "te \<noteq> []"
    by blast
  have "\<exists>m'. out_maps out = Some m' \<and> shape m' = shape ex_tensor
           \<and> (\<forall>idx. length idx = ndim ex_tensor \<longrightarrow> elem m' idx = elem ex_tensor idx)"
    by (rule maps_unchanged_without_augmentation [OF c])
       (simp_all add: ex_pipeline_def ex_args_def)
  then obtain m' where m: "out_maps out = Some m'" "shape m' = shape ex_tensor"
    "\<forall>idx. length idx = ndim ex_tensor \<longrightarrow> elem m' idx = elem ex_tensor idx"
    by blast
  from m(3) have "elem m' [1, 2, 3, 4] = elem ex_tensor [1, 2, 3, 4]"
    by (simp add: ndim_def ex_tensor_def)
  then have "elem m' [1, 2, 3, 4] = 42" by (simp add: ex_tensor_def)
  with c t m show ?thesis by (auto simp: ex_tensor_def)
qed

subsection \<open>Seeding through the constructor\<close>

text \<open>
  C8. The claim fails on the code for the seed given to the constructor: \<open>__init__\<close> calls
  \<open>seed_tfm_gens\<close> under the test \<open>seed is None\<close>, so a seed that is given is never
  applied. Two orchestrators built from the same generator and the same seed 7, over
  generator states 1 and 2, keep those states and return different measurement data for the
  same input.
\<close>

theorem constructor_seed_not_applied:
  "snd (init ex_seed_tfm_gens to_device ex_random True (Some 7) None False (ex_world\<lparr>gstate := 1\<rparr>))
     = ex_world\<lparr>gstate := 1\<rparr>
   \<and> snd (init ex_seed_tfm_gens to_device ex_random True (Some 7) None False (ex_world\<lparr>gstate := 2\<rparr>))
     = ex_world\<lparr>gstate := 2\<rparr>
   \<and> (case fst (call ex_ops
                  (fst (init ex_seed_tfm_gens to_device ex_random True (Some 7) None False
                          (ex_world\<lparr>gstate := 1\<rparr>)))
                  ex_args
                  (snd (init ex_seed_tfm_gens to_device ex_random True (Some 7) None False
                          (ex_world\<lparr>gstate := 1\<rparr>)))) of
         Inl e \<Rightarrow> False
       | Inr (out, te, ti) \<Rightarrow> elem (out_kspace out) [1, 2, 3, 4] = 42)
   \<and> (case fst (call ex_ops
                  (fst (init ex_seed_tfm_gens to_device ex_random True (Some 7) None False
                          (ex_world\<lparr>gstate := 2\<rparr>)))
                  ex_args
                  (snd (init ex_seed_tfm_gens to_device ex_random True (Some 7) None False
                          (ex_world\<lparr>gstate := 2\<rparr>)))) of
         Inl e \<Rightarrow> False
       | Inr (out, te, ti) \<Rightarrow> elem (out_kspace out) [1, 2, 3, 4] = 84)"
  by (simp add: init_def stage_defs permute_defs ex_defs)

subsection \<open>Invariant transforms without maps\<close>

text \<open>
  C9. The claim fails on the code: with one invariant transform that takes no maps, no
  normalizer, no mask generator and \<open>maps=None\<close>, the invariant stage still calls
  \<open>_permute_data(maps, spatial_last=True)\<close>, which reads \<open>None.ndim\<close>.
\<close>

theorem invariant_only_needs_maps:
  "fst (call ex_ops (ex_pipeline [ex_noise] True) (ex_args\<lparr>maps := None\<rparr>) ex_world)
     = Inl AttributeError"
  by (simp add: stage_defs permute_defs ex_defs)

subsection \<open>Contract errors\<close>

text \<open>
  C5. The call ends with a failed assertion in exactly two situations. Either the
  classification runs and an element of the resolved, flattened list has a transform class
  that is not below \<open>Transform\<close>; or the classified list has an invariant transform,
  re-masking after the invariant transforms is in force, and no mask has been established
  when the invariant stage is reached (none was passed and there is no mask generator),
  the image-domain stage before it having succeeded. In both the call returns the error and
  no scheduler has been stepped.
\<close>

theorem assertion_failures:
  "(fst (call ops self a w) = Inl AssertionError \<longleftrightarrow>
      (\<not> skip_tfm a
         \<and> \<not> list_all (\<lambda>t. is_Transform (tfm_kind t))
                (flatten (fst (resolve_choices (tfms_or_gens self) w))))
      \<or> (\<exists>es vs w1. select_transforms self (skip_tfm a) w = (Inr (es, vs), w1)
            \<and> vs \<noteq> [] \<and> remask_requested self a \<and> mask a = None \<and> mask_gen a = None
            \<and> \<not> isl (fst (image_stage ops (aug_sensitivity_maps self) es a w1))))
   \<and> (fst (call ops self a w) = Inl AssertionError \<longrightarrow>
        counters (snd (call ops self a w)) = counters w)"
  using call_assertion [of ops self a w] call_assert_world [of ops self a w] by blast

theorem assertion_failures_witness:
  "fst (call ex_ops (ex_pipeline [ex_foreign] True) ex_args ex_world) = Inl AssertionError
   \<and> fst (call ex_ops (ex_pipeline [ex_noise] True) (ex_args\<lparr>override := Some True\<rparr>) ex_world)
       = Inl AssertionError
   \<and> fst (call ex_ops (ex_pipeline [ex_noise] True) ex_args ex_world) \<noteq> Inl AssertionError"
proof -
  have a: "fst (call ex_ops (ex_pipeline [ex_foreign] True) ex_args ex_world) = Inl AssertionError"
    using assertion_failures [of ex_ops "ex_pipeline [ex_foreign] True" ex_args ex_world]
    by (simp add: stage_defs ex_defs)
  have b: "fst (call ex_ops (ex_pipeline [ex_noise] True) (ex_args\<lparr>override := Some True\<rparr>) ex_world)
       = Inl AssertionError"
    using assertion_failures [of ex_ops "ex_pipeline [ex_noise] True"
        "ex_args\<lparr>override := Some True\<rparr>" ex_world]
    by (simp add: stage_defs ex_defs)
  have c: "fst (call ex_ops (ex_pipeline [ex_noise] True) ex_args ex_world) \<noteq> Inl AssertionError"
    using assertion_failures [of ex_ops "ex_pipeline [ex_noise] True" ex_args ex_world]
    by (simp add: stage_defs ex_defs)
  from a b c show ?thesis by blast
qed

subsection \<open>Maps seen by the invariant stage\<close>



end
